theory Spec2Isabelle
  imports Main "HOL-Library.Word" "HOL-Library.Monad_Syntax"
begin

section \<open>Machine types and return codes\<close>

text \<open>
  The buffered B-tree of \<^verbatim>\<open>newbrt/brt.c\<close>.  Unsigned C integers are words, so every
  sum and product below wraps as it does in C.  A function that can hit a failing
  \<^verbatim>\<open>assert\<close>/\<^verbatim>\<open>invariant\<close> (which aborts the process) or an access outside an array
  returns an option; \<open>None\<close> is that abort.
\<close>

type_synonym u32 = "32 word"
type_synonym u64 = "64 word"
type_synonym bytevec = "8 word list"
type_synonym TXNID = u64
type_synonym MSN = u64

definition assert :: "bool \<Rightarrow> unit option" where
  "assert b = (if b then Some () else None)"

text \<open>
  The return codes come from the public header, which is not part of the extracted
  sources; only their being pairwise distinct and nonzero is used.
\<close>

definition DB_NOTFOUND :: int where "DB_NOTFOUND = - 30989"
definition TOKUDB_FOUND_BUT_REJECTED :: int where "TOKUDB_FOUND_BUT_REJECTED = - 100002"
definition TOKUDB_ACCEPT :: int where "TOKUDB_ACCEPT = - 100009"
definition TOKUDB_TRY_AGAIN :: int where "TOKUDB_TRY_AGAIN = - 100012"

section \<open>Transactions and leaf entries\<close>

text \<open>
  The reader context \<^verbatim>\<open>TOKUTXN\<close>.  \<^verbatim>\<open>toku_get_oldest_in_live_root_txn_list\<close> and
  \<^verbatim>\<open>toku_is_txn_in_live_root_txn_list\<close> belong to the transaction manager; the first is
  kept as the value it returns for the context, the second is membership in the
  context's live root transaction list.
\<close>

record tokutxn =
  ancestor_txnid64 :: TXNID
  snapshot_txnid64 :: TXNID
  oldest_in_live_root_txn_list :: TXNID
  live_root_txn_list :: "TXNID list"

definition toku_get_oldest_in_live_root_txn_list :: "tokutxn \<Rightarrow> TXNID" where
  "toku_get_oldest_in_live_root_txn_list context = oldest_in_live_root_txn_list context"

definition toku_is_txn_in_live_root_txn_list :: "tokutxn \<Rightarrow> TXNID \<Rightarrow> bool" where
  "toku_is_txn_in_live_root_txn_list context xid = (xid \<in> set (live_root_txn_list context))"

definition does_txn_read_entry :: "TXNID \<Rightarrow> tokutxn \<Rightarrow> int" where
  "does_txn_read_entry xid context =
     (let oldest_live_in_snapshot = toku_get_oldest_in_live_root_txn_list context in
      if xid < oldest_live_in_snapshot \<or> xid = ancestor_txnid64 context then TOKUDB_ACCEPT
      else if xid > snapshot_txnid64 context \<or> toku_is_txn_in_live_root_txn_list context xid then 0
      else TOKUDB_ACCEPT)"

text \<open>
  Modelled from the spec: the leaf entry (\<^verbatim>\<open>LEAFENTRY\<close>, implemented in the files
  \<^verbatim>\<open>ule.c\<close> and \<^verbatim>\<open>leafentry.c\<close> that are not among the sources).  An entry has a key and a
  stack of versions, newest first, each written by one transaction id and holding a value or
  a tombstone (\<open>None\<close>).  The stack is never empty: \<open>le_latest\<close> is its top.
\<close>

type_synonym le_version = "TXNID \<times> bytevec option"

record leafentry =
  le_key :: bytevec
  le_latest :: le_version
  le_older :: "le_version list"

definition le_stack :: "leafentry \<Rightarrow> le_version list" where
  "le_stack le = le_latest le # le_older le"

definition le_latest_is_del :: "leafentry \<Rightarrow> bool" where
  "le_latest_is_del le = (snd (le_latest le) = None)"

text \<open>
  Modelled from the spec: \<^verbatim>\<open>le_iterate_is_del\<close> walks the version stack with the
  visibility callback; the first version the callback accepts wins.  The spec does not say
  what is stored when no version is accepted, so nothing is (\<open>None\<close>).
\<close>

definition le_iterate_is_del ::
    "leafentry \<Rightarrow> (TXNID \<Rightarrow> tokutxn \<Rightarrow> int) \<Rightarrow> tokutxn \<Rightarrow> bool option" where
  "le_iterate_is_del le f context =
     map_option (\<lambda>v. snd v = None)
       (find (\<lambda>v. f (fst v) context = TOKUDB_ACCEPT) (le_stack le))"

record brt_cursor =
  is_snapshot_read :: bool
  is_leaf_mode :: bool
  ttxn :: "tokutxn option"
  current_in_omt :: bool
  to_be :: "leafentry list \<times> nat"
  omtcursor_omt :: "leafentry list option"
  omtcursor_index :: nat

text \<open>
  \<^verbatim>\<open>is_le_val_del\<close>: a snapshot read dereferences the cursor's transaction (\<open>None\<close> is the
  null pointer) and reads the flag \<^verbatim>\<open>le_iterate_is_del\<close> has stored.
\<close>

definition is_le_val_del :: "leafentry \<Rightarrow> brt_cursor \<Rightarrow> bool option" where
  "is_le_val_del le brtcursor =
     (if is_snapshot_read brtcursor then
        (case ttxn brtcursor of
           None \<Rightarrow> None
         | Some context \<Rightarrow> le_iterate_is_del le does_txn_read_entry context)
      else Some (le_latest_is_del le))"

section \<open>Nodes\<close>

datatype reactivity = RE_STABLE | RE_FUSIBLE | RE_FISSIBLE

datatype pt_state = PT_INVALID | PT_ON_DISK | PT_COMPRESSED | PT_AVAIL

datatype brt_msg_type =
    BRT_NONE | BRT_INSERT | BRT_DELETE_ANY | BRT_ABORT_ANY | BRT_COMMIT_ANY
  | BRT_COMMIT_BROADCAST_ALL | BRT_COMMIT_BROADCAST_TXN | BRT_ABORT_BROADCAST_TXN
  | BRT_INSERT_NO_OVERWRITE | BRT_OPTIMIZE | BRT_OPTIMIZE_FOR_UPGRADE
  | BRT_UPDATE | BRT_UPDATE_BROADCAST_ALL

record brt_msg =
  msg_type :: brt_msg_type
  msg_msn :: MSN
  msg_xids :: "TXNID list"
  msg_key :: bytevec
  msg_val :: bytevec

record subtree_estimates =
  nkeys :: u64
  ndata :: u64
  dsize :: u64
  exact :: bool

definition zero_estimates :: subtree_estimates where
  "zero_estimates = \<lparr>nkeys = 0, ndata = 0, dsize = 0, exact = True\<rparr>"

text \<open>The basement node of a leaf partition; the OMT is the ordered list of its entries.\<close>

record basementnode =
  bn_buffer :: "leafentry list"
  bn_n_bytes_in_buffer :: u32
  bn_seqinsert :: u32
  bn_optimized_for_upgrade :: u32
  bn_soft_copy_is_up_to_date :: bool

text \<open>The child information of a nonleaf partition: the FIFO of messages and its byte count.\<close>

record nonleaf_childinfo =
  bnc_buffer :: "brt_msg list"
  bnc_n_bytes_in_buffer :: u32

datatype child_ptr = Childinfo nonleaf_childinfo | Basement basementnode | Null_ptr

record brtnode_partition =
  bp_blocknum :: u64
  bp_have_fullhash :: bool
  bp_fullhash :: u32
  bp_state :: pt_state
  bp_subtree_est :: subtree_estimates
  bp_ptr :: child_ptr

text \<open>
  \<^verbatim>\<open>struct brtnode\<close>.  The array \<open>bp\<close> carries its own length, which is \<^verbatim>\<open>n_children\<close>.
\<close>

record brtnode =
  nodesize :: u32
  flags :: u32
  thisnodename :: u64
  fullhash :: u32
  height :: int
  dirty :: bool
  max_msn_applied_to_node_on_disk :: MSN
  max_msn_applied_to_node_in_memory :: MSN
  totalchildkeylens :: u32
  childkeys :: "bytevec list"
  bp :: "brtnode_partition list"

definition n_children :: "brtnode \<Rightarrow> int" where
  "n_children node = int (length (bp node))"

text \<open>Reading partition \<open>i\<close> of a node; an index outside the array has no value.\<close>

definition BP :: "brtnode \<Rightarrow> int \<Rightarrow> brtnode_partition option" where
  "BP node i = (if 0 \<le> i \<and> i < n_children node then Some (bp node ! nat i) else None)"

definition BLB :: "brtnode \<Rightarrow> int \<Rightarrow> basementnode option" where
  "BLB node i = do {
     p \<leftarrow> BP node i;
     (case bp_ptr p of Basement bn \<Rightarrow> Some bn | _ \<Rightarrow> None)
   }"

definition BNC :: "brtnode \<Rightarrow> int \<Rightarrow> nonleaf_childinfo option" where
  "BNC node i = do {
     p \<leftarrow> BP node i;
     (case bp_ptr p of Childinfo c \<Rightarrow> Some c | _ \<Rightarrow> None)
   }"

definition toku_omt_size :: "leafentry list \<Rightarrow> u32" where
  "toku_omt_size omt = of_nat (length omt)"

definition toku_assert_entire_node_in_memory :: "brtnode \<Rightarrow> unit option" where
  "toku_assert_entire_node_in_memory node =
     assert (list_all (\<lambda>p. bp_state p = PT_AVAIL) (bp node))"

fun sum_omt_sizes :: "brtnode_partition list \<Rightarrow> u32 \<Rightarrow> u32 option" where
  "sum_omt_sizes [] result = Some result"
| "sum_omt_sizes (p # ps) result =
     (case bp_ptr p of
        Basement bn \<Rightarrow> sum_omt_sizes ps (result + toku_omt_size (bn_buffer bn))
      | _ \<Rightarrow> None)"

definition get_leaf_num_entries :: "brtnode \<Rightarrow> u32 option" where
  "get_leaf_num_entries node = do {
     toku_assert_entire_node_in_memory node;
     sum_omt_sizes (bp node) 0
   }"

text \<open>
  \<^verbatim>\<open>get_leaf_reactivity\<close>.  \<^verbatim>\<open>toku_serialize_brtnode_size\<close> is part of the serializer and is
  a parameter here.  The C conditions short-circuit: the entries are counted only when the
  size exceeds the node size, and the streak of the last basement is read only when four
  times the size (an \<^verbatim>\<open>unsigned int\<close> product) is below the node size.
\<close>

definition get_leaf_reactivity :: "(brtnode \<Rightarrow> u32) \<Rightarrow> brtnode \<Rightarrow> reactivity option" where
  "get_leaf_reactivity toku_serialize_brtnode_size node = do {
     assert (height node = 0);
     if dirty node then do {
       let size = toku_serialize_brtnode_size node;
       fissible \<leftarrow> (if size > nodesize node
                    then map_option (\<lambda>n. n > 1) (get_leaf_num_entries node)
                    else Some False);
       if fissible then Some RE_FISSIBLE
       else if size * 4 < nodesize node then do {
         bn \<leftarrow> BLB node (n_children node - 1);
         Some (if bn_seqinsert bn = 0 then RE_FUSIBLE else RE_STABLE)
       }
       else Some RE_STABLE
     }
     else Some RE_STABLE
   }"

section \<open>Applying a message to a basement node\<close>

text \<open>
  The functions of the leaf-entry and OMT layers that \<^verbatim>\<open>brt.c\<close> calls but that are not among
  the sources are collected here.  \<^verbatim>\<open>apply_msg_to_leafentry\<close> yields the new entry (or none),
  \<^verbatim>\<open>leafentry_disksize\<close> its size on disk, \<^verbatim>\<open>compare_fun\<close> is the user comparator of the
  tree.
\<close>

record leaf_ext =
  apply_msg_to_leafentry :: "brt_msg \<Rightarrow> leafentry option \<Rightarrow> leafentry option"
  leafentry_disksize :: "leafentry \<Rightarrow> u32"
  OMT_ITEM_OVERHEAD :: u32
  compare_fun :: "bytevec \<Rightarrow> bytevec \<Rightarrow> int"

text \<open>
  Modelled from the spec: the lengths \<^verbatim>\<open>le_keylen\<close> and \<^verbatim>\<open>le_latest_vallen\<close> of the leaf-entry
  layer (``\<open>keylen + latest_vallen\<close>''); a tombstone has no value bytes.
\<close>

definition le_keylen :: "leafentry \<Rightarrow> u32" where
  "le_keylen le = of_nat (length (le_key le))"

definition le_latest_vallen :: "leafentry \<Rightarrow> u32" where
  "le_latest_vallen le = (case snd (le_latest le) of None \<Rightarrow> 0 | Some v \<Rightarrow> of_nat (length v))"

text \<open>
  Modelled from the spec: the OMT layer (\<^verbatim>\<open>omt.c\<close> is not among the sources).  The OMT is the
  ordered list of its values; \<^verbatim>\<open>toku_omt_find_zero\<close> locates the first value on which the
  heaviside function is not negative, returns 0 and the value when the function is zero
  there, and \<^verbatim>\<open>DB_NOTFOUND\<close> with that index (the size when there is no such value)
  otherwise.  The other operations fail (nonzero return) outside the range of indices.
\<close>

fun first_nonneg :: "('a \<Rightarrow> int) \<Rightarrow> 'a list \<Rightarrow> nat" where
  "first_nonneg h [] = 0"
| "first_nonneg h (x # xs) = (if h x \<ge> 0 then 0 else Suc (first_nonneg h xs))"

definition toku_omt_find_zero :: "'a list \<Rightarrow> ('a \<Rightarrow> int) \<Rightarrow> int \<times> 'a option \<times> nat" where
  "toku_omt_find_zero omt h =
     (let i = first_nonneg h omt in
      if i < length omt \<and> h (omt ! i) = 0 then (0, Some (omt ! i), i)
      else (DB_NOTFOUND, None, i))"

definition toku_omt_fetch :: "'a list \<Rightarrow> nat \<Rightarrow> 'a option" where
  "toku_omt_fetch omt i = (if i < length omt then Some (omt ! i) else None)"

definition toku_omt_set_at :: "'a list \<Rightarrow> 'a \<Rightarrow> nat \<Rightarrow> 'a list option" where
  "toku_omt_set_at omt v i = (if i < length omt then Some (omt[i := v]) else None)"

definition toku_omt_insert_at :: "'a list \<Rightarrow> 'a \<Rightarrow> nat \<Rightarrow> 'a list option" where
  "toku_omt_insert_at omt v i =
     (if i \<le> length omt then Some (take i omt @ v # drop i omt) else None)"

definition toku_omt_delete_at :: "'a list \<Rightarrow> nat \<Rightarrow> 'a list option" where
  "toku_omt_delete_at omt i =
     (if i < length omt then Some (take i omt @ drop (Suc i) omt) else None)"

definition toku_cmd_leafval_heaviside :: "leaf_ext \<Rightarrow> bytevec \<Rightarrow> leafentry \<Rightarrow> int" where
  "toku_cmd_leafval_heaviside t key le = compare_fun t (le_key le) key"

definition bump_nkeys :: "subtree_estimates \<Rightarrow> int \<Rightarrow> subtree_estimates option" where
  "bump_nkeys a direction = do {
     let a = a\<lparr>nkeys := nkeys a + word_of_int direction\<rparr>;
     assert (exact a);
     Some a
   }"

definition brt_leaf_delete_leafentry ::
    "leaf_ext \<Rightarrow> basementnode \<Rightarrow> subtree_estimates \<Rightarrow> nat \<Rightarrow> leafentry
     \<Rightarrow> (basementnode \<times> subtree_estimates) option" where
  "brt_leaf_delete_leafentry t bn se idx le = do {
     se \<leftarrow> bump_nkeys se (- 1);
     buffer \<leftarrow> toku_omt_delete_at (bn_buffer bn) idx;
     let bn = bn\<lparr>bn_buffer := buffer,
                 bn_n_bytes_in_buffer :=
                   bn_n_bytes_in_buffer bn - (OMT_ITEM_OVERHEAD t + leafentry_disksize t le)\<rparr>;
     let oldlen = le_latest_vallen le + le_keylen le;
     assert (dsize se \<ge> ucast oldlen);
     let se = se\<lparr>dsize := dsize se - ucast oldlen\<rparr>;
     assert (dsize se < 2 ^ 31);
     Some (bn, se\<lparr>ndata := ndata se - 1\<rparr>)
   }"

text \<open>
  \<^verbatim>\<open>brt_leaf_apply_cmd_once\<close>: the message is applied to the old entry \<open>le\<close> (none when the
  key is new) and the result is stored at index \<open>idx\<close>.
\<close>

definition brt_leaf_apply_cmd_once ::
    "leaf_ext \<Rightarrow> basementnode \<Rightarrow> subtree_estimates \<Rightarrow> brt_msg \<Rightarrow> nat \<Rightarrow> leafentry option
     \<Rightarrow> (basementnode \<times> subtree_estimates) option" where
  "brt_leaf_apply_cmd_once t bn se cmd idx le =
     (case (le, apply_msg_to_leafentry t cmd le) of
        (Some le, Some new_le) \<Rightarrow> do {
          let oldlen = le_keylen le + le_latest_vallen le;
          assert (dsize se \<ge> ucast oldlen);
          assert (dsize se < 2 ^ 31);
          let se = se\<lparr>dsize := dsize se - ucast oldlen\<rparr>;
          let se = se\<lparr>dsize := dsize se + ucast (le_keylen new_le + le_latest_vallen new_le)\<rparr>;
          assert (dsize se < 2 ^ 31);
          let n = bn_n_bytes_in_buffer bn - (OMT_ITEM_OVERHEAD t + leafentry_disksize t le);
          let n = n + (OMT_ITEM_OVERHEAD t + leafentry_disksize t new_le);
          buffer \<leftarrow> toku_omt_set_at (bn_buffer bn) new_le idx;
          Some (bn\<lparr>bn_buffer := buffer, bn_n_bytes_in_buffer := n\<rparr>, se)
        }
      | (le, new_le) \<Rightarrow> do {
          (bn, se) \<leftarrow> (case le of
                         Some le \<Rightarrow> brt_leaf_delete_leafentry t bn se idx le
                       | None \<Rightarrow> Some (bn, se));
          (case new_le of
             Some new_le \<Rightarrow> do {
               buffer \<leftarrow> toku_omt_insert_at (bn_buffer bn) new_le idx;
               let bn = bn\<lparr>bn_buffer := buffer,
                           bn_n_bytes_in_buffer :=
                             bn_n_bytes_in_buffer bn
                             + (OMT_ITEM_OVERHEAD t + leafentry_disksize t new_le)\<rparr>;
               let se = se\<lparr>dsize := dsize se
                                      + ucast (le_latest_vallen new_le + le_keylen new_le)\<rparr>;
               assert (dsize se < 2 ^ 31);
               let se = se\<lparr>ndata := ndata se + 1\<rparr>;
               se \<leftarrow> bump_nkeys se 1;
               Some (bn, se)
             }
           | None \<Rightarrow> Some (bn, se))
        })"

text \<open>
  The \<^verbatim>\<open>BRT_INSERT\<close> / \<^verbatim>\<open>BRT_INSERT_NO_OVERWRITE\<close> case of \<^verbatim>\<open>brt_leaf_put_cmd\<close>, with the
  prologue of the function (the streak counter is read into \<^verbatim>\<open>doing_seqinsert\<close> and cleared).
  \<open>insert_location\<close> is the search for the index: during a streak the last entry is
  compared first and, when it is smaller than the key, the key goes to the end; in every
  other case (label \<^verbatim>\<open>fz\<close>) the OMT is searched.
\<close>

definition insert_location ::
    "leaf_ext \<Rightarrow> basementnode \<Rightarrow> brt_msg \<Rightarrow> int \<times> leafentry option \<times> nat" where
  "insert_location t bn cmd =
     (let h = toku_cmd_leafval_heaviside t (msg_key cmd);
          fz = toku_omt_find_zero (bn_buffer bn) h;
          doing_seqinsert = bn_seqinsert bn in
      if doing_seqinsert \<noteq> 0 then
        (let idx = length (bn_buffer bn) in
         if idx = 0 then fz
         else (case toku_omt_fetch (bn_buffer bn) (idx - 1) of
                 None \<Rightarrow> fz
               | Some storeddata \<Rightarrow> if h storeddata \<ge> 0 then fz else (DB_NOTFOUND, None, idx)))
      else fz)"

definition seqinsert_window :: "nat \<Rightarrow> nat" where
  "seqinsert_window s = (let w = s div 16; w = (if w = 0 then 1 else w) in if w > 32 then 32 else w)"

definition brt_leaf_put_cmd_insert ::
    "leaf_ext \<Rightarrow> basementnode \<Rightarrow> subtree_estimates \<Rightarrow> brt_msg
     \<Rightarrow> (basementnode \<times> subtree_estimates \<times> bool) option" where
  "brt_leaf_put_cmd_insert t bn se cmd = do {
     let doing_seqinsert = bn_seqinsert bn;
     let (r, storeddatav, idx) = insert_location t bn cmd;
     let bn = bn\<lparr>bn_seqinsert := 0\<rparr>;
     storeddata \<leftarrow> (if r = DB_NOTFOUND then Some None
                    else do { assert (r = 0); Some storeddatav });
     (bn, se) \<leftarrow> brt_leaf_apply_cmd_once t bn se cmd idx storeddata;
     let s = length (bn_buffer bn);
     let w = seqinsert_window s;
     Some (if s - idx \<le> w then bn\<lparr>bn_seqinsert := doing_seqinsert + 1\<rparr> else bn, se, True)
   }"

section \<open>Subtree estimates of a child\<close>

text \<open>
  \<^verbatim>\<open>fixup_child_estimates\<close>: the estimates of the partitions of \<open>child\<close> are summed and stored
  in partition \<open>childnum_of_node\<close> of \<open>node\<close>.  The FIFO of a partition of a nonleaf child is
  looked at only when the partition is available.
\<close>

fun sum_child_estimates ::
    "int \<Rightarrow> brtnode_partition list \<Rightarrow> subtree_estimates \<Rightarrow> subtree_estimates option" where
  "sum_child_estimates h [] estimates = Some estimates"
| "sum_child_estimates h (p # ps) estimates = do {
     let child_se = bp_subtree_est p;
     let estimates = estimates\<lparr>nkeys := nkeys estimates + nkeys child_se,
                                 ndata := ndata estimates + ndata child_se,
                                 dsize := dsize estimates + dsize child_se\<rparr>;
     let estimates = (if \<not> exact child_se then estimates\<lparr>exact := False\<rparr> else estimates);
     estimates \<leftarrow>
       (if h > 0 then
          (if bp_state p \<noteq> PT_AVAIL then Some (estimates\<lparr>exact := False\<rparr>)
           else (case bp_ptr p of
                   Childinfo c \<Rightarrow>
                     Some (if bnc_buffer c \<noteq> [] then estimates\<lparr>exact := False\<rparr> else estimates)
                 | _ \<Rightarrow> None))
        else Some estimates);
     sum_child_estimates h ps estimates
   }"

definition fixup_child_estimates :: "brtnode \<Rightarrow> int \<Rightarrow> brtnode \<Rightarrow> bool \<Rightarrow> brtnode option" where
  "fixup_child_estimates node childnum_of_node child dirty_it = do {
     estimates \<leftarrow> sum_child_estimates (height child) (bp child) (zero_estimates\<lparr>exact := True\<rparr>);
     p \<leftarrow> BP node childnum_of_node;
     let node = node\<lparr>bp := (bp node)[nat childnum_of_node := p\<lparr>bp_subtree_est := estimates\<rparr>]\<rparr>;
     Some (if dirty_it then node\<lparr>dirty := True\<rparr> else node)
   }"

section \<open>Merging two leaves\<close>

text \<open>
  \<^verbatim>\<open>merge_leaf_nodes\<close>: every basement of \<open>b\<close> moves to \<open>a\<close>.  The last basement of \<open>a\<close> stays
  (and the key of its last entry becomes the pivot after it) when it holds an entry, and is
  dropped when it is empty.  Afterwards \<open>b\<close> has no children.  The pivot array of a node with
  \<open>n\<close> children has \<open>n - 1\<close> entries; a shorter one is read outside its range.
\<close>

definition merge_leaf_nodes :: "brtnode \<Rightarrow> brtnode \<Rightarrow> (brtnode \<times> brtnode) option" where
  "merge_leaf_nodes a b = do {
     toku_assert_entire_node_in_memory a;
     toku_assert_entire_node_in_memory b;
     assert (height a = 0);
     assert (height b = 0);
     assert (n_children a > 0);
     assert (n_children b > 0);
     last_bn \<leftarrow> BLB a (n_children a - 1);
     let a_has_tail = (toku_omt_size (bn_buffer last_bn) \<noteq> 0);
     assert (length (childkeys a) \<ge> length (bp a) - 1);
     assert (length (childkeys b) \<ge> length (bp b) - 1);
     tail_pivot \<leftarrow>
       (if a_has_tail then do {
          le \<leftarrow> toku_omt_fetch (bn_buffer last_bn) (length (bn_buffer last_bn) - 1);
          Some [le]
        } else Some []);
     let a = a\<lparr>bp := (if a_has_tail then bp a else butlast (bp a)) @ bp b,
               childkeys := take (length (bp a) - 1) (childkeys a) @ map le_key tail_pivot
                            @ take (length (bp b) - 1) (childkeys b),
               totalchildkeylens := totalchildkeylens a + sum_list (map le_keylen tail_pivot)
                                    + totalchildkeylens b,
               dirty := True\<rparr>;
     let b = b\<lparr>bp := [], childkeys := [], totalchildkeylens := 0, dirty := True\<rparr>;
     Some (a, b)
   }"

section \<open>Routing a message\<close>

fun brt_msg_applies_once :: "brt_msg_type \<Rightarrow> bool" where
  "brt_msg_applies_once BRT_INSERT_NO_OVERWRITE = True"
| "brt_msg_applies_once BRT_INSERT = True"
| "brt_msg_applies_once BRT_DELETE_ANY = True"
| "brt_msg_applies_once BRT_ABORT_ANY = True"
| "brt_msg_applies_once BRT_COMMIT_ANY = True"
| "brt_msg_applies_once BRT_UPDATE = True"
| "brt_msg_applies_once BRT_COMMIT_BROADCAST_ALL = False"
| "brt_msg_applies_once BRT_COMMIT_BROADCAST_TXN = False"
| "brt_msg_applies_once BRT_ABORT_BROADCAST_TXN = False"
| "brt_msg_applies_once BRT_OPTIMIZE = False"
| "brt_msg_applies_once BRT_OPTIMIZE_FOR_UPGRADE = False"
| "brt_msg_applies_once BRT_UPDATE_BROADCAST_ALL = False"
| "brt_msg_applies_once BRT_NONE = False"

fun brt_msg_applies_all :: "brt_msg_type \<Rightarrow> bool" where
  "brt_msg_applies_all BRT_NONE = False"
| "brt_msg_applies_all BRT_INSERT_NO_OVERWRITE = False"
| "brt_msg_applies_all BRT_INSERT = False"
| "brt_msg_applies_all BRT_DELETE_ANY = False"
| "brt_msg_applies_all BRT_ABORT_ANY = False"
| "brt_msg_applies_all BRT_COMMIT_ANY = False"
| "brt_msg_applies_all BRT_UPDATE = False"
| "brt_msg_applies_all BRT_COMMIT_BROADCAST_ALL = True"
| "brt_msg_applies_all BRT_COMMIT_BROADCAST_TXN = True"
| "brt_msg_applies_all BRT_ABORT_BROADCAST_TXN = True"
| "brt_msg_applies_all BRT_OPTIMIZE = True"
| "brt_msg_applies_all BRT_OPTIMIZE_FOR_UPGRADE = True"
| "brt_msg_applies_all BRT_UPDATE_BROADCAST_ALL = True"

definition brt_msg_does_nothing :: "brt_msg_type \<Rightarrow> bool" where
  "brt_msg_does_nothing ty = (ty = BRT_NONE)"

fun msg_type_has_key :: "brt_msg_type \<Rightarrow> bool" where
  "msg_type_has_key BRT_NONE = False"
| "msg_type_has_key BRT_COMMIT_BROADCAST_ALL = False"
| "msg_type_has_key BRT_COMMIT_BROADCAST_TXN = False"
| "msg_type_has_key BRT_ABORT_BROADCAST_TXN = False"
| "msg_type_has_key BRT_OPTIMIZE = False"
| "msg_type_has_key BRT_OPTIMIZE_FOR_UPGRADE = False"
| "msg_type_has_key BRT_UPDATE_BROADCAST_ALL = False"
| "msg_type_has_key BRT_INSERT = True"
| "msg_type_has_key BRT_DELETE_ANY = True"
| "msg_type_has_key BRT_ABORT_ANY = True"
| "msg_type_has_key BRT_COMMIT_ANY = True"
| "msg_type_has_key BRT_INSERT_NO_OVERWRITE = True"
| "msg_type_has_key BRT_UPDATE = True"

text \<open>Reading pivot \<open>i\<close> of a node; an index outside the pivot array has no value.\<close>

definition childkey :: "brtnode \<Rightarrow> nat \<Rightarrow> bytevec option" where
  "childkey node i = (if i < length (childkeys node) then Some (childkeys node ! i) else None)"

definition brt_compare_pivot :: "leaf_ext \<Rightarrow> bytevec \<Rightarrow> bytevec \<Rightarrow> int" where
  "brt_compare_pivot t key ck = compare_fun t key ck"

text \<open>
  \<^verbatim>\<open>toku_brtnode_which_child\<close> (the variant compiled in, \<^verbatim>\<open>DO_PIVOT_BIN_SEARCH\<close>): the last
  pivot is tried first, then the others are searched by bisection.
\<close>

function pivot_bisect :: "leaf_ext \<Rightarrow> brtnode \<Rightarrow> bytevec \<Rightarrow> nat \<Rightarrow> nat \<Rightarrow> nat option" where
  "pivot_bisect t node k lo hi =
     (if lo < hi then
        (let mi = (lo + hi) div 2 in
         case childkey node mi of
           None \<Rightarrow> None
         | Some ck \<Rightarrow>
             (let cmp = brt_compare_pivot t k ck in
              if cmp > 0 then pivot_bisect t node k (mi + 1) hi
              else if cmp < 0 then pivot_bisect t node k lo mi
              else Some mi))
      else Some lo)"
  by pat_completeness auto
termination
  by (relation "measure (\<lambda>(t, node, k, lo, hi). hi - lo)") auto

declare pivot_bisect.simps [simp del]

definition toku_brtnode_which_child :: "leaf_ext \<Rightarrow> brtnode \<Rightarrow> bytevec \<Rightarrow> int option" where
  "toku_brtnode_which_child t node k =
     (if n_children node \<le> 1 then Some 0
      else do {
        let n = length (bp node) - 1;
        ck \<leftarrow> childkey node (n - 1);
        if brt_compare_pivot t k ck > 0 then Some (int n)
        else map_option int (pivot_bisect t node k 0 (n - 1))
      })"

section \<open>Applying a message to a leaf node\<close>

text \<open>
  \<^verbatim>\<open>brt_leaf_put_cmd\<close> applies one message to one basement node and its estimates and reports
  whether it changed anything.  What it does inside the basement does not matter for the
  way messages are routed to basements, so the functions below take it as a parameter;
  its insert case is \<open>brt_leaf_put_cmd_insert\<close> above.
\<close>

type_synonym leaf_put =
  "basementnode \<Rightarrow> subtree_estimates \<Rightarrow> brt_msg \<Rightarrow> (basementnode \<times> subtree_estimates \<times> bool) option"

text \<open>One call of \<^verbatim>\<open>brt_leaf_put_cmd\<close> on partition \<open>childnum\<close> of a leaf.\<close>

definition put_to_basement ::
    "leaf_put \<Rightarrow> brtnode \<Rightarrow> int \<Rightarrow> brt_msg \<Rightarrow> (brtnode \<times> bool) option" where
  "put_to_basement brt_leaf_put_cmd node childnum cmd = do {
     p \<leftarrow> BP node childnum;
     bn \<leftarrow> BLB node childnum;
     (bn, se, made_change) \<leftarrow> brt_leaf_put_cmd bn (bp_subtree_est p) cmd;
     Some (node\<lparr>bp := (bp node)[nat childnum := p\<lparr>bp_ptr := Basement bn, bp_subtree_est := se\<rparr>]\<rparr>,
           made_change)
   }"

fun apply_cmd_to_all_basements ::
    "leaf_put \<Rightarrow> brt_msg \<Rightarrow> nat \<Rightarrow> int \<Rightarrow> brtnode \<Rightarrow> bool \<Rightarrow> (brtnode \<times> bool) option" where
  "apply_cmd_to_all_basements brt_leaf_put_cmd cmd 0 childnum node made_change =
     Some (node, made_change)"
| "apply_cmd_to_all_basements brt_leaf_put_cmd cmd (Suc remaining) childnum node made_change = do {
     p \<leftarrow> BP node childnum;
     (node, made_change) \<leftarrow>
       (if bp_state p = PT_AVAIL then do {
          (node, bn_made_change) \<leftarrow> put_to_basement brt_leaf_put_cmd node childnum cmd;
          Some (node, if bn_made_change then True else made_change)
        } else Some (node, made_change));
     apply_cmd_to_all_basements brt_leaf_put_cmd cmd remaining (childnum + 1) node made_change
   }"

text \<open>
  \<^verbatim>\<open>toku_apply_cmd_to_leaf\<close>; \<open>made_change\<close> is the value of \<^verbatim>\<open>*made_change\<close> before and
  after the call.
\<close>

definition toku_apply_cmd_to_leaf ::
    "leaf_put \<Rightarrow> leaf_ext \<Rightarrow> brtnode \<Rightarrow> brt_msg \<Rightarrow> bool \<Rightarrow> (brtnode \<times> bool) option" where
  "toku_apply_cmd_to_leaf brt_leaf_put_cmd t node cmd made_change =
     (if msg_msn cmd \<le> max_msn_applied_to_node_in_memory node then Some (node, made_change)
      else do {
        let node = node\<lparr>max_msn_applied_to_node_in_memory := msg_msn cmd\<rparr>;
        if brt_msg_applies_once (msg_type cmd) then do {
          childnum \<leftarrow> toku_brtnode_which_child t node (msg_key cmd);
          p \<leftarrow> BP node childnum;
          if bp_state p = PT_AVAIL then put_to_basement brt_leaf_put_cmd node childnum cmd
          else Some (node, made_change)
        }
        else if brt_msg_applies_all (msg_type cmd) then
          apply_cmd_to_all_basements brt_leaf_put_cmd cmd (length (bp node)) 0 node made_change
        else do {
          assert (brt_msg_does_nothing (msg_type cmd));
          Some (node, made_change)
        }
      })"

section \<open>Replaying the messages of the ancestors\<close>

record pivot_bounds =
  lower_bound_exclusive :: "bytevec option"
  upper_bound_inclusive :: "bytevec option"

definition infinite_bounds :: pivot_bounds where
  "infinite_bounds = \<lparr>lower_bound_exclusive = None, upper_bound_inclusive = None\<rparr>"

definition prepivotkey :: "brtnode \<Rightarrow> int \<Rightarrow> bytevec option \<Rightarrow> bytevec option option" where
  "prepivotkey node childnum lbe =
     (if childnum = 0 then Some lbe
      else if childnum < 0 then None
      else map_option Some (childkey node (nat (childnum - 1))))"

definition postpivotkey :: "brtnode \<Rightarrow> int \<Rightarrow> bytevec option \<Rightarrow> bytevec option option" where
  "postpivotkey node childnum ubi =
     (if childnum + 1 = n_children node then Some ubi
      else if childnum < 0 then None
      else map_option Some (childkey node (nat childnum)))"

definition next_pivot_keys :: "brtnode \<Rightarrow> int \<Rightarrow> pivot_bounds \<Rightarrow> pivot_bounds option" where
  "next_pivot_keys node childnum old_pb = do {
     l \<leftarrow> prepivotkey node childnum (lower_bound_exclusive old_pb);
     u \<leftarrow> postpivotkey node childnum (upper_bound_inclusive old_pb);
     Some \<lparr>lower_bound_exclusive = l, upper_bound_inclusive = u\<rparr>
   }"

definition key_is_in_leaf_range ::
    "leaf_ext \<Rightarrow> bytevec \<Rightarrow> bytevec option \<Rightarrow> bytevec option \<Rightarrow> bool" where
  "key_is_in_leaf_range t key lbe ubi =
     ((case lbe of None \<Rightarrow> True | Some l \<Rightarrow> compare_fun t l key < 0) \<and>
      (case ubi of None \<Rightarrow> True | Some u \<Rightarrow> compare_fun t key u \<le> 0))"

text \<open>
  The body of the \<^verbatim>\<open>FIFO_ITERATE\<close> loop of \<^verbatim>\<open>apply_buffer_messages_to_node\<close>, run over the
  messages of the FIFO from the oldest to the newest.
\<close>

fun fifo_iterate_apply ::
    "leaf_put \<Rightarrow> leaf_ext \<Rightarrow> MSN \<Rightarrow> pivot_bounds \<Rightarrow> brt_msg list
     \<Rightarrow> basementnode \<Rightarrow> subtree_estimates \<Rightarrow> (basementnode \<times> subtree_estimates) option" where
  "fifo_iterate_apply brt_leaf_put_cmd t min_applied_msn bounds [] bn se = Some (bn, se)"
| "fifo_iterate_apply brt_leaf_put_cmd t min_applied_msn bounds (m # fifo) bn se =
     (if msg_msn m > min_applied_msn \<and>
         (\<not> msg_type_has_key (msg_type m) \<or>
          key_is_in_leaf_range t (msg_key m) (lower_bound_exclusive bounds)
            (upper_bound_inclusive bounds))
      then do {
        (bn, se, made_change) \<leftarrow> brt_leaf_put_cmd bn se m;
        fifo_iterate_apply brt_leaf_put_cmd t min_applied_msn bounds fifo bn se
      }
      else fifo_iterate_apply brt_leaf_put_cmd t min_applied_msn bounds fifo bn se)"

definition apply_buffer_messages_to_node ::
    "leaf_put \<Rightarrow> leaf_ext \<Rightarrow> basementnode \<Rightarrow> subtree_estimates \<Rightarrow> brtnode \<Rightarrow> int \<Rightarrow> int
     \<Rightarrow> MSN \<Rightarrow> pivot_bounds \<Rightarrow> (basementnode \<times> subtree_estimates) option" where
  "apply_buffer_messages_to_node brt_leaf_put_cmd t bn se ancestor childnum height' min_applied_msn
       bounds = do {
     assert (height ancestor = height');
     assert (height ancestor > 0);
     assert (0 \<le> childnum \<and> childnum < n_children ancestor);
     p \<leftarrow> BP ancestor childnum;
     assert (bp_state p = PT_AVAIL);
     c \<leftarrow> BNC ancestor childnum;
     fifo_iterate_apply brt_leaf_put_cmd t min_applied_msn bounds (bnc_buffer c) bn se
   }"

fun calc_leaf_stats_iterate :: "leafentry list \<Rightarrow> subtree_estimates \<Rightarrow> subtree_estimates" where
  "calc_leaf_stats_iterate [] e = e"
| "calc_leaf_stats_iterate (le # les) e =
     calc_leaf_stats_iterate les
       (e\<lparr>dsize := dsize e + ucast (le_keylen le + le_latest_vallen le),
          ndata := ndata e + 1,
          nkeys := nkeys e + 1\<rparr>)"

definition calc_leaf_stats :: "leafentry list \<Rightarrow> subtree_estimates" where
  "calc_leaf_stats buffer = calc_leaf_stats_iterate buffer zero_estimates"

fun reset_partition_stats :: "brtnode_partition list \<Rightarrow> brtnode_partition list option" where
  "reset_partition_stats [] = Some []"
| "reset_partition_stats (p # ps) = do {
     p \<leftarrow> (if bp_state p = PT_AVAIL then
             (case bp_ptr p of
                Basement bn \<Rightarrow> Some (p\<lparr>bp_subtree_est := calc_leaf_stats (bn_buffer bn)\<rparr>)
              | _ \<Rightarrow> None)
           else Some p);
     ps \<leftarrow> reset_partition_stats ps;
     Some (p # ps)
   }"

definition toku_brt_leaf_reset_calc_leaf_stats :: "brtnode \<Rightarrow> brtnode option" where
  "toku_brt_leaf_reset_calc_leaf_stats node = do {
     assert (height node = 0);
     ps \<leftarrow> reset_partition_stats (bp node);
     Some (node\<lparr>bp := ps\<rparr>)
   }"

section \<open>Splitting a leaf, and rebalancing two leaves\<close>

text \<open>
  \<^verbatim>\<open>brtleaf_disk_size\<close>: the sum, in 64 bits, of the disk sizes of all leaf entries of a leaf
  that is entirely in memory.
\<close>

fun sum_disk_sizes :: "leaf_ext \<Rightarrow> brtnode_partition list \<Rightarrow> u64 \<Rightarrow> u64 option" where
  "sum_disk_sizes t [] retval = Some retval"
| "sum_disk_sizes t (p # ps) retval =
     (case bp_ptr p of
        Basement bn \<Rightarrow>
          sum_disk_sizes t ps
            (fold (\<lambda>le r. r + ucast (leafentry_disksize t le)) (bn_buffer bn) retval)
      | _ \<Rightarrow> None)"

definition brtleaf_disk_size :: "leaf_ext \<Rightarrow> brtnode \<Rightarrow> u64 option" where
  "brtleaf_disk_size t node = do {
     assert (height node = 0);
     toku_assert_entire_node_in_memory node;
     sum_disk_sizes t (bp node) 0
   }"

text \<open>
  \<^verbatim>\<open>brtleaf_get_split_loc\<close> walks the entries of all basements in order with a 32-bit running
  sum \<^verbatim>\<open>size_so_far\<close> and stops at the first entry at which the sum has reached half of
  \<^verbatim>\<open>sumlesizes\<close>.  The caller initialises both indices to \<open>0\<close>, which is what remains when the
  walk finds no such entry.
\<close>

fun split_loc_in_basement ::
    "leaf_ext \<Rightarrow> u64 \<Rightarrow> leafentry list \<Rightarrow> nat \<Rightarrow> u32 \<Rightarrow> nat option \<times> u32" where
  "split_loc_in_basement t sumlesizes [] j size_so_far = (None, size_so_far)"
| "split_loc_in_basement t sumlesizes (le # les) j size_so_far =
     (let size_so_far = size_so_far + leafentry_disksize t le in
      if (ucast size_so_far :: u64) \<ge> sumlesizes div 2 then (Some j, size_so_far)
      else split_loc_in_basement t sumlesizes les (j + 1) size_so_far)"

fun split_loc_in_node ::
    "leaf_ext \<Rightarrow> u64 \<Rightarrow> brtnode_partition list \<Rightarrow> int \<Rightarrow> u32 \<Rightarrow> (int \<times> nat) option option" where
  "split_loc_in_node t sumlesizes [] i size_so_far = Some None"
| "split_loc_in_node t sumlesizes (p # ps) i size_so_far =
     (case bp_ptr p of
        Basement bn \<Rightarrow>
          (case split_loc_in_basement t sumlesizes (bn_buffer bn) 0 size_so_far of
             (Some j, _) \<Rightarrow> Some (Some (i, j))
           | (None, size_so_far) \<Rightarrow> split_loc_in_node t sumlesizes ps (i + 1) size_so_far)
      | _ \<Rightarrow> None)"

definition brtleaf_get_split_loc :: "leaf_ext \<Rightarrow> brtnode \<Rightarrow> u64 \<Rightarrow> (int \<times> nat) option" where
  "brtleaf_get_split_loc t node sumlesizes = do {
     assert (height node = 0);
     found \<leftarrow> split_loc_in_node t sumlesizes (bp node) 0 0;
     Some (case found of None \<Rightarrow> (0, 0) | Some loc \<Rightarrow> loc)
   }"

text \<open>
  Two helpers of \<^verbatim>\<open>brtleaf_split\<close> are not among the sources:
  \<^verbatim>\<open>toku_brt_pivot_key_len\<close>, the length that a pivot key contributes to
  \<^verbatim>\<open>totalchildkeylens\<close>, and \<^verbatim>\<open>toku_setup_empty_bn\<close>, of which \<open>empty_bn\<close> is the basement it
  sets up.
\<close>

record split_ext =
  toku_brt_pivot_key_len :: "bytevec \<Rightarrow> u32"
  empty_bn :: basementnode

text \<open>
  \<^verbatim>\<open>move_leafentries\<close> moves the entries \<open>[lbi, ube)\<close> of the source buffer to a new buffer and
  counts \<^verbatim>\<open>OMT_ITEM_OVERHEAD + leafentry_disksize\<close> for each of them.  With \<open>ube < lbi\<close> the
  allocation size \<^verbatim>\<open>ube - lbi\<close> wraps around; that call has no result here.
\<close>

definition move_leafentries ::
    "leaf_ext \<Rightarrow> leafentry list \<Rightarrow> nat \<Rightarrow> nat \<Rightarrow> (leafentry list \<times> leafentry list \<times> u32) option"
    where
  "move_leafentries t src_omt lbi ube = do {
     assert (lbi \<le> ube \<and> ube \<le> length src_omt);
     let moved = take (ube - lbi) (drop lbi src_omt);
     Some (moved, take lbi src_omt @ drop ube src_omt,
           fold (\<lambda>le n. n + (OMT_ITEM_OVERHEAD t + leafentry_disksize t le)) moved 0)
   }"

text \<open>
  \<^verbatim>\<open>brtleaf_split\<close>.  The node \<open>B\<close> is \<^verbatim>\<open>*nodeb\<close> when \<^verbatim>\<open>create_new_node\<close> is false and the node
  that \<^verbatim>\<open>toku_create_new_brtnode\<close> returned otherwise; either way its first partition is a
  fresh, available one whose basement receives the entries after the split point, and its other
  partitions are the basements of \<open>node\<close> after \<open>split_node\<close>.  \<open>node\<close> keeps the first
  \<open>split_node + 1\<close> basements and the first \<open>split_node\<close> pivots; the other pivots move to
  \<open>B\<close>.  The new pivot is the key of the last entry that stays in basement \<open>split_node\<close> of
  \<open>node\<close>.  Both nodes get the msn of \<open>node\<close> and are dirty.

  \<^verbatim>\<open>subtract_estimates\<close> and \<^verbatim>\<open>add_estimates\<close> (not among the sources) adjust the estimates of
  the two partitions of the split point; \<^verbatim>\<open>toku_brt_leaf_reset_calc_leaf_stats\<close> recomputes the
  estimates of every available partition of both nodes right after, and all partitions are
  available there.
\<close>

definition fresh_leaf_partition :: "basementnode \<Rightarrow> brtnode_partition" where
  "fresh_leaf_partition bn =
     \<lparr>bp_blocknum = 0, bp_have_fullhash = False, bp_fullhash = 0, bp_state = PT_AVAIL,
      bp_subtree_est = zero_estimates, bp_ptr = Basement bn\<rparr>"

definition brtleaf_split ::
    "leaf_ext \<Rightarrow> split_ext \<Rightarrow> brtnode \<Rightarrow> brtnode \<Rightarrow> bool
     \<Rightarrow> (brtnode \<times> brtnode \<times> bytevec) option" where
  "brtleaf_split t sx node B create_new_node = do {
     assert (height node = 0);
     assert (nodesize node > 0);
     toku_assert_entire_node_in_memory node;
     let max_msn_applied_to_node = max_msn_applied_to_node_in_memory node;
     sumlesizes \<leftarrow> brtleaf_disk_size t node;
     (split_node, split_at_in_node) \<leftarrow> brtleaf_get_split_loc t node sumlesizes;
     let num_children_in_node = split_node + 1;
     let num_children_in_b = n_children node - split_node;
     assert (num_children_in_b > 0);
     (if create_new_node then assert (nodesize B > 0) else Some ());
     src_p \<leftarrow> BP node split_node;
     src_bn \<leftarrow> BLB node split_node;
     (moved, kept, diff_size) \<leftarrow>
       move_leafentries t (bn_buffer src_bn) (split_at_in_node + 1) (length (bn_buffer src_bn));
     let src_bn = src_bn\<lparr>bn_buffer := kept,
                         bn_n_bytes_in_buffer := bn_n_bytes_in_buffer src_bn - diff_size\<rparr>;
     let dest_bn = (empty_bn sx)\<lparr>bn_buffer := moved,
                         bn_n_bytes_in_buffer := bn_n_bytes_in_buffer (empty_bn sx) + diff_size\<rparr>;
     assert (length (childkeys node) \<ge> length (bp node) - 1);
     let moved_keys = take (nat (num_children_in_b - 1)) (drop (nat split_node) (childkeys node));
     let moved_lens = fold (\<lambda>k n. n + toku_brt_pivot_key_len sx k) moved_keys 0;
     let B = B\<lparr>bp := fresh_leaf_partition dest_bn # drop (nat num_children_in_node) (bp node),
               childkeys := moved_keys,
               totalchildkeylens := totalchildkeylens B + moved_lens\<rparr>;
     let node = node\<lparr>bp := take (nat split_node) (bp node) @ [src_p\<lparr>bp_ptr := Basement src_bn\<rparr>],
                     childkeys := take (nat split_node) (childkeys node),
                     totalchildkeylens := totalchildkeylens node - moved_lens\<rparr>;
     node \<leftarrow> toku_brt_leaf_reset_calc_leaf_stats node;
     B \<leftarrow> toku_brt_leaf_reset_calc_leaf_stats B;
     le \<leftarrow> toku_omt_fetch kept (length kept - 1);
     Some (node\<lparr>max_msn_applied_to_node_in_memory := max_msn_applied_to_node, dirty := True\<rparr>,
           B\<lparr>max_msn_applied_to_node_in_memory := max_msn_applied_to_node, dirty := True\<rparr>,
           le_key le)
   }"

text \<open>
  \<^verbatim>\<open>balance_leaf_nodes\<close> merges everything into \<open>a\<close> and splits the result again with
  \<^verbatim>\<open>create_new_node = FALSE\<close>, so that \<open>b\<close> is reused.
\<close>

definition balance_leaf_nodes ::
    "leaf_ext \<Rightarrow> split_ext \<Rightarrow> brtnode \<Rightarrow> brtnode \<Rightarrow> (brtnode \<times> brtnode \<times> bytevec) option" where
  "balance_leaf_nodes t sx a b = do {
     (a, b) \<leftarrow> merge_leaf_nodes a b;
     brtleaf_split t sx a b False
   }"

record merge_outcome =
  did_merge :: bool
  did_rebalance :: bool
  splitk :: "bytevec option"
  out_parent :: brtnode
  out_a :: brtnode
  out_b :: brtnode

definition fixup_both ::
    "brtnode \<Rightarrow> int \<Rightarrow> brtnode \<Rightarrow> brtnode \<Rightarrow> brtnode option" where
  "fixup_both parent childnum_of_parent a b = do {
     parent \<leftarrow> fixup_child_estimates parent childnum_of_parent a True;
     fixup_child_estimates parent (childnum_of_parent + 1) b True
   }"

text \<open>
  \<^verbatim>\<open>maybe_merge_pinned_leaf_nodes\<close>.  The sizes are \<^verbatim>\<open>unsigned int\<close>, and so are the products
  that are compared.  \<^verbatim>\<open>toku_serialize_brtnode_size\<close> belongs to the serializer and is a
  parameter.
\<close>

definition maybe_merge_pinned_leaf_nodes ::
    "(brtnode \<Rightarrow> u32) \<Rightarrow> leaf_ext \<Rightarrow> split_ext \<Rightarrow> brtnode \<Rightarrow> int \<Rightarrow> brtnode \<Rightarrow> brtnode
     \<Rightarrow> bytevec \<Rightarrow> merge_outcome option" where
  "maybe_merge_pinned_leaf_nodes toku_serialize_brtnode_size t sx
       parent childnum_of_parent a b parent_splitk =
     (let sizea = toku_serialize_brtnode_size a;
          sizeb = toku_serialize_brtnode_size b in
      if (sizea + sizeb) * 4 > nodesize a * 3 then
        (if sizea * 4 > nodesize a \<and> sizeb * 4 > nodesize a then
           Some \<lparr>did_merge = False, did_rebalance = False, splitk = Some parent_splitk,
                 out_parent = parent, out_a = a, out_b = b\<rparr>
         else do {
           (a, b, k) \<leftarrow> balance_leaf_nodes t sx a b;
           parent \<leftarrow> fixup_both parent childnum_of_parent a b;
           Some \<lparr>did_merge = False, did_rebalance = True, splitk = Some k,
                 out_parent = parent, out_a = a, out_b = b\<rparr>
         })
      else do {
        (a, b) \<leftarrow> merge_leaf_nodes a b;
        parent \<leftarrow> fixup_both parent childnum_of_parent a b;
        Some \<lparr>did_merge = True, did_rebalance = False, splitk = None,
              out_parent = parent, out_a = a, out_b = b\<rparr>
      })"

section \<open>Replaying the ancestors into a leaf\<close>

text \<open>
  The list of ancestors \<^verbatim>\<open>ANCESTORS\<close>, nearest first: each ancestor with the number of the
  child the descent took.  \<open>apply_ancestors\<close> is the inner \<^verbatim>\<open>while (curr_ancestors)\<close> loop
  of \<^verbatim>\<open>maybe_apply_ancestors_messages_to_node\<close> for one basement; \<open>msn\<close> is the
  \<^verbatim>\<open>max_msn_applied_to_node_in_memory\<close> of the leaf, which the loop raises.
\<close>

type_synonym ancestors = "(brtnode \<times> int) list"

fun apply_ancestors ::
    "leaf_put \<Rightarrow> leaf_ext \<Rightarrow> MSN \<Rightarrow> pivot_bounds \<Rightarrow> ancestors \<Rightarrow> int
     \<Rightarrow> basementnode \<Rightarrow> subtree_estimates \<Rightarrow> MSN
     \<Rightarrow> (basementnode \<times> subtree_estimates \<times> MSN) option" where
  "apply_ancestors brt_leaf_put_cmd t max_msn_on_disk bounds [] height' bn se msn =
     Some (bn, se, msn)"
| "apply_ancestors brt_leaf_put_cmd t max_msn_on_disk bounds ((anc, childnum) # curr_ancestors)
       height' bn se msn = do {
     let height' = height' + 1;
     (bn, se) \<leftarrow> apply_buffer_messages_to_node brt_leaf_put_cmd t bn se anc childnum height'
                   max_msn_on_disk bounds;
     let msn = (if max_msn_applied_to_node_in_memory anc > msn
                then max_msn_applied_to_node_in_memory anc else msn);
     apply_ancestors brt_leaf_put_cmd t max_msn_on_disk bounds curr_ancestors height' bn se msn
   }"

text \<open>The outer loop over the partitions \<open>i\<close>, \<open>i + 1\<close>, \dots of the leaf.\<close>

fun replay_basements ::
    "leaf_put \<Rightarrow> leaf_ext \<Rightarrow> ancestors \<Rightarrow> pivot_bounds \<Rightarrow> nat \<Rightarrow> int \<Rightarrow> brtnode \<Rightarrow> bool
     \<Rightarrow> (brtnode \<times> bool) option" where
  "replay_basements brt_leaf_put_cmd t ancestors bounds 0 i node update_stats =
     Some (node, update_stats)"
| "replay_basements brt_leaf_put_cmd t ancestors bounds (Suc remaining) i node update_stats = do {
     p \<leftarrow> BP node i;
     skip \<leftarrow> (if bp_state p \<noteq> PT_AVAIL then Some True
              else map_option bn_soft_copy_is_up_to_date (BLB node i));
     if skip then
       replay_basements brt_leaf_put_cmd t ancestors bounds remaining (i + 1) node update_stats
     else do {
       curr_bn \<leftarrow> BLB node i;
       curr_bounds \<leftarrow> next_pivot_keys node i bounds;
       (bn, se, msn) \<leftarrow> apply_ancestors brt_leaf_put_cmd t (max_msn_applied_to_node_on_disk node)
                          curr_bounds ancestors 0 curr_bn (bp_subtree_est p)
                          (max_msn_applied_to_node_in_memory node);
       let p = p\<lparr>bp_ptr := Basement (bn\<lparr>bn_soft_copy_is_up_to_date := True\<rparr>),
                 bp_subtree_est := se\<rparr>;
       let node = node\<lparr>max_msn_applied_to_node_in_memory := msn,
                        bp := (bp node)[nat i := p]\<rparr>;
       replay_basements brt_leaf_put_cmd t ancestors bounds remaining (i + 1) node True
     }
   }"

fun fixup_ancestors :: "brtnode \<Rightarrow> ancestors \<Rightarrow> ancestors option" where
  "fixup_ancestors prev_node [] = Some []"
| "fixup_ancestors prev_node ((next_node, childnum) # curr_ancestors) = do {
     next_node \<leftarrow> fixup_child_estimates next_node childnum prev_node False;
     rest \<leftarrow> fixup_ancestors next_node curr_ancestors;
     Some ((next_node, childnum) # rest)
   }"

text \<open>
  \<^verbatim>\<open>maybe_apply_ancestors_messages_to_node\<close>.  The ancestors are returned too, since their
  estimates are written.
\<close>

definition maybe_apply_ancestors_messages_to_node ::
    "leaf_put \<Rightarrow> leaf_ext \<Rightarrow> brtnode \<Rightarrow> ancestors \<Rightarrow> pivot_bounds
     \<Rightarrow> (brtnode \<times> ancestors) option" where
  "maybe_apply_ancestors_messages_to_node brt_leaf_put_cmd t node ancestors bounds =
     (if height node > 0 then Some (node, ancestors)
      else do {
        (node, update_stats) \<leftarrow>
          replay_basements brt_leaf_put_cmd t ancestors bounds (length (bp node)) 0 node False;
        if update_stats then do {
          node \<leftarrow> toku_brt_leaf_reset_calc_leaf_stats node;
          ancestors \<leftarrow> fixup_ancestors node ancestors;
          Some (node, ancestors)
        }
        else Some (node, ancestors)
      })"

section \<open>Putting a message into a nonleaf node\<close>

text \<open>
  Constants and functions of the headers, the FIFO, the serializer and the cachetable that
  \<^verbatim>\<open>brt.c\<close> uses and that are not among the sources.
\<close>

record buf_ext =
  KEY_VALUE_OVERHEAD :: u32
  BRT_CMD_OVERHEAD :: u32
  xids_get_serialize_size :: "TXNID list \<Rightarrow> u32"
  TREE_FANOUT :: int
  toku_cachetable_hash :: "u64 \<Rightarrow> u32"
  toku_serialize_brtnode_size :: "brtnode \<Rightarrow> u32"

text \<open>
  The number of bytes a message takes in a buffer, as \<^verbatim>\<open>toku_brt_append_to_child_buffer\<close>
  (\<^verbatim>\<open>diff\<close>) and \<^verbatim>\<open>flush_this_child\<close> (\<^verbatim>\<open>n_bytes_removed\<close>) compute it.
\<close>

definition msg_nbytes :: "buf_ext \<Rightarrow> brt_msg \<Rightarrow> u32" where
  "msg_nbytes x m =
     of_nat (length (msg_key m)) + of_nat (length (msg_val m)) + KEY_VALUE_OVERHEAD x
     + BRT_CMD_OVERHEAD x + xids_get_serialize_size x (msg_xids m)"

text \<open>\<^verbatim>\<open>toku_fifo_enq\<close> puts the message at the tail of the FIFO.\<close>

definition toku_brt_append_to_child_buffer ::
    "buf_ext \<Rightarrow> brtnode \<Rightarrow> int \<Rightarrow> brt_msg \<Rightarrow> brtnode option" where
  "toku_brt_append_to_child_buffer x node childnum cmd = do {
     p \<leftarrow> BP node childnum;
     assert (bp_state p = PT_AVAIL);
     let diff = msg_nbytes x cmd;
     c \<leftarrow> BNC node childnum;
     let c = c\<lparr>bnc_buffer := bnc_buffer c @ [cmd],
               bnc_n_bytes_in_buffer := bnc_n_bytes_in_buffer c + diff\<rparr>;
     Some (node\<lparr>bp := (bp node)[nat childnum := p\<lparr>bp_ptr := Childinfo c\<rparr>], dirty := True\<rparr>)
   }"

definition brt_nonleaf_cmd_once_to_child ::
    "buf_ext \<Rightarrow> brtnode \<Rightarrow> int \<Rightarrow> brt_msg \<Rightarrow> brtnode option" where
  "brt_nonleaf_cmd_once_to_child x node childnum cmd =
     toku_brt_append_to_child_buffer x node childnum cmd"

definition brt_nonleaf_cmd_once ::
    "leaf_ext \<Rightarrow> buf_ext \<Rightarrow> brtnode \<Rightarrow> brt_msg \<Rightarrow> brtnode option" where
  "brt_nonleaf_cmd_once t x node cmd = do {
     childnum \<leftarrow> toku_brtnode_which_child t node (msg_key cmd);
     brt_nonleaf_cmd_once_to_child x node childnum cmd
   }"

fun cmd_all_loop :: "buf_ext \<Rightarrow> brt_msg \<Rightarrow> nat \<Rightarrow> int \<Rightarrow> brtnode \<Rightarrow> brtnode option" where
  "cmd_all_loop x cmd 0 i node = Some node"
| "cmd_all_loop x cmd (Suc remaining) i node = do {
     node \<leftarrow> brt_nonleaf_cmd_once_to_child x node i cmd;
     cmd_all_loop x cmd remaining (i + 1) node
   }"

definition brt_nonleaf_cmd_all :: "buf_ext \<Rightarrow> brtnode \<Rightarrow> brt_msg \<Rightarrow> brtnode option" where
  "brt_nonleaf_cmd_all x node cmd = cmd_all_loop x cmd (length (bp node)) 0 node"

definition brt_nonleaf_put_cmd ::
    "leaf_ext \<Rightarrow> buf_ext \<Rightarrow> brtnode \<Rightarrow> brt_msg \<Rightarrow> brtnode option" where
  "brt_nonleaf_put_cmd t x node cmd = do {
     let cmd_msn = msg_msn cmd;
     assert (cmd_msn > max_msn_applied_to_node_in_memory node);
     let node = node\<lparr>max_msn_applied_to_node_in_memory := cmd_msn\<rparr>;
     (case msg_type cmd of
        BRT_INSERT_NO_OVERWRITE \<Rightarrow> brt_nonleaf_cmd_once t x node cmd
      | BRT_INSERT \<Rightarrow> brt_nonleaf_cmd_once t x node cmd
      | BRT_DELETE_ANY \<Rightarrow> brt_nonleaf_cmd_once t x node cmd
      | BRT_ABORT_ANY \<Rightarrow> brt_nonleaf_cmd_once t x node cmd
      | BRT_COMMIT_ANY \<Rightarrow> brt_nonleaf_cmd_once t x node cmd
      | BRT_UPDATE \<Rightarrow> brt_nonleaf_cmd_once t x node cmd
      | BRT_COMMIT_BROADCAST_ALL \<Rightarrow> brt_nonleaf_cmd_all x node cmd
      | BRT_COMMIT_BROADCAST_TXN \<Rightarrow> brt_nonleaf_cmd_all x node cmd
      | BRT_ABORT_BROADCAST_TXN \<Rightarrow> brt_nonleaf_cmd_all x node cmd
      | BRT_OPTIMIZE \<Rightarrow> brt_nonleaf_cmd_all x node cmd
      | BRT_OPTIMIZE_FOR_UPGRADE \<Rightarrow> brt_nonleaf_cmd_all x node cmd
      | BRT_UPDATE_BROADCAST_ALL \<Rightarrow> brt_nonleaf_cmd_all x node cmd
      | BRT_NONE \<Rightarrow> Some node)
   }"

definition assert_leaf_up_to_date :: "brtnode \<Rightarrow> unit option" where
  "assert_leaf_up_to_date node = do {
     assert (height node = 0);
     toku_assert_entire_node_in_memory node;
     assert (list_all (\<lambda>p. case bp_ptr p of Basement bn \<Rightarrow> bn_soft_copy_is_up_to_date bn
                                          | _ \<Rightarrow> False) (bp node))
   }"

definition brtnode_put_cmd :: "leaf_ext \<Rightarrow> buf_ext \<Rightarrow> brtnode \<Rightarrow> brt_msg \<Rightarrow> brtnode option" where
  "brtnode_put_cmd t x node cmd = do {
     toku_assert_entire_node_in_memory node;
     if height node = 0 then do {
       assert_leaf_up_to_date node;
       Some node
     }
     else brt_nonleaf_put_cmd t x node cmd
   }"

definition brtnode_nonleaf_put_cmd_at_root ::
    "leaf_ext \<Rightarrow> buf_ext \<Rightarrow> brtnode \<Rightarrow> brt_msg \<Rightarrow> brtnode option" where
  "brtnode_nonleaf_put_cmd_at_root t x node cmd = do {
     assert (height node > 0);
     toku_assert_entire_node_in_memory node;
     brt_nonleaf_put_cmd t x node cmd
   }"

definition push_something_at_root ::
    "leaf_put \<Rightarrow> leaf_ext \<Rightarrow> buf_ext \<Rightarrow> brtnode \<Rightarrow> brt_msg \<Rightarrow> brtnode option" where
  "push_something_at_root brt_leaf_put_cmd t x node cmd = do {
     toku_assert_entire_node_in_memory node;
     if height node = 0 then do {
       (node, made_dirty) \<leftarrow> toku_apply_cmd_to_leaf brt_leaf_put_cmd t node cmd False;
       Some (if made_dirty then node\<lparr>dirty := True\<rparr> else node)
     }
     else brtnode_nonleaf_put_cmd_at_root t x node cmd
   }"

section \<open>Reactivity and weight of a nonleaf node\<close>

definition get_nonleaf_reactivity :: "buf_ext \<Rightarrow> brtnode \<Rightarrow> reactivity option" where
  "get_nonleaf_reactivity x node = do {
     assert (height node > 0);
     let n = n_children node;
     Some (if n > TREE_FANOUT x then RE_FISSIBLE
           else if n * 4 < TREE_FANOUT x then RE_FUSIBLE
           else RE_STABLE)
   }"

definition get_node_reactivity :: "buf_ext \<Rightarrow> brtnode \<Rightarrow> reactivity option" where
  "get_node_reactivity x node = do {
     toku_assert_entire_node_in_memory node;
     if height node = 0 then get_leaf_reactivity (toku_serialize_brtnode_size x) node
     else get_nonleaf_reactivity x node
   }"

fun buffers_are_empty :: "brtnode_partition list \<Rightarrow> bool option" where
  "buffers_are_empty [] = Some True"
| "buffers_are_empty (p # ps) =
     (case bp_ptr p of
        Childinfo c \<Rightarrow> if bnc_n_bytes_in_buffer c > 0 then Some False else buffers_are_empty ps
      | _ \<Rightarrow> None)"

definition nonleaf_node_is_gorged :: "buf_ext \<Rightarrow> brtnode \<Rightarrow> bool option" where
  "nonleaf_node_is_gorged x node = do {
     toku_assert_entire_node_in_memory node;
     assert (height node > 0);
     e \<leftarrow> buffers_are_empty (bp node);
     Some (toku_serialize_brtnode_size x node > nodesize node \<and> \<not> e)
   }"

text \<open>
  \<^verbatim>\<open>find_heaviest_child\<close>: the byte counts are read into \<^verbatim>\<open>int\<close> variables, so they are
  compared as signed numbers; a later child wins only when strictly heavier.
\<close>

fun heaviest_loop :: "brtnode \<Rightarrow> nat \<Rightarrow> int \<Rightarrow> int \<Rightarrow> int \<Rightarrow> int option" where
  "heaviest_loop node 0 i max_child max_weight = Some max_child"
| "heaviest_loop node (Suc remaining) i max_child max_weight = do {
     c \<leftarrow> BNC node i;
     let this_weight = sint (bnc_n_bytes_in_buffer c);
     if max_weight < this_weight
     then heaviest_loop node remaining (i + 1) i this_weight
     else heaviest_loop node remaining (i + 1) max_child max_weight
   }"

definition find_heaviest_child :: "brtnode \<Rightarrow> int option" where
  "find_heaviest_child node = do {
     c \<leftarrow> BNC node 0;
     let max_weight = sint (bnc_n_bytes_in_buffer c);
     assert (n_children node > 0);
     heaviest_loop node (length (bp node) - 1) 1 0 max_weight
   }"

definition compute_child_fullhash :: "buf_ext \<Rightarrow> brtnode \<Rightarrow> int \<Rightarrow> (brtnode \<times> u32) option" where
  "compute_child_fullhash x node childnum = do {
     assert (height node > 0 \<and> childnum < n_children node);
     p \<leftarrow> BP node childnum;
     if bp_have_fullhash p then do {
       assert (bp_fullhash p = toku_cachetable_hash x (bp_blocknum p));
       Some (node, bp_fullhash p)
     }
     else do {
       let child_fullhash = toku_cachetable_hash x (bp_blocknum p);
       Some (node\<lparr>bp := (bp node)[nat childnum :=
                     p\<lparr>bp_have_fullhash := True, bp_fullhash := child_fullhash\<rparr>]\<rparr>,
             child_fullhash)
     }
   }"

section \<open>Flushing one buffer into the child\<close>

text \<open>
  The two loops of \<^verbatim>\<open>flush_this_child\<close> that empty the FIFO.  For a leaf child every
  message is dequeued and its bytes are taken off the count; for a nonleaf child every
  message is first pushed into the child with \<^verbatim>\<open>brtnode_put_cmd\<close>.
\<close>

fun drain_to_leaf :: "buf_ext \<Rightarrow> brt_msg list \<Rightarrow> u32 \<Rightarrow> brt_msg list \<times> u32" where
  "drain_to_leaf x [] nbytes = ([], nbytes)"
| "drain_to_leaf x (m # fifo) nbytes =
     (let n_bytes_removed = msg_nbytes x m in drain_to_leaf x fifo (nbytes - n_bytes_removed))"

fun drain_to_nonleaf ::
    "leaf_ext \<Rightarrow> buf_ext \<Rightarrow> brt_msg list \<Rightarrow> u32 \<Rightarrow> brtnode
     \<Rightarrow> (brt_msg list \<times> u32 \<times> brtnode) option" where
  "drain_to_nonleaf t x [] nbytes child = Some ([], nbytes, child)"
| "drain_to_nonleaf t x (m # fifo) nbytes child = do {
     let n_bytes_removed = msg_nbytes x m;
     child \<leftarrow> brtnode_put_cmd t x child m;
     drain_to_nonleaf t x fifo (nbytes - n_bytes_removed) child
   }"

text \<open>
  \<^verbatim>\<open>flush_some_child\<close> applied to the child, the recursive call of \<^verbatim>\<open>flush_this_child\<close>, is
  a parameter: it is given the child, the flag \<^verbatim>\<open>is_first_flush\<close>, the ancestors of the child
  (the flushed node first) and the bounds, and returns the child and the ancestors as it
  leaves them.  The loop around it may go on for as long as the child stays gorged.
\<close>

type_synonym flush_rec =
  "brtnode \<Rightarrow> bool \<Rightarrow> ancestors \<Rightarrow> pivot_bounds \<Rightarrow> (brtnode \<times> ancestors) option"

partial_function (option) flush_while_gorged ::
    "buf_ext \<times> flush_rec \<times> bool \<times> pivot_bounds \<times> nat \<times> brtnode \<times> ancestors
     \<Rightarrow> (brtnode \<times> ancestors) option" where
  "flush_while_gorged args =
     (case args of
        (x, flush_some_child, is_first_flush, next_bounds, n_flushed, child, next_ancestors) \<Rightarrow>
        do {
          gorged \<leftarrow> nonleaf_node_is_gorged x child;
          if gorged \<and> (is_first_flush \<or> n_flushed = 0) then do {
            (child, next_ancestors) \<leftarrow>
              flush_some_child child (is_first_flush \<and> n_flushed = 0) next_ancestors next_bounds;
            flush_while_gorged (x, flush_some_child, is_first_flush, next_bounds, n_flushed + 1,
                                child, next_ancestors)
          }
          else Some (child, next_ancestors)
        })"

definition set_child_buffer :: "brtnode \<Rightarrow> int \<Rightarrow> brt_msg list \<Rightarrow> u32 \<Rightarrow> brtnode option" where
  "set_child_buffer node childnum fifo nbytes = do {
     p \<leftarrow> BP node childnum;
     Some (node\<lparr>bp := (bp node)[nat childnum :=
                   p\<lparr>bp_ptr := Childinfo \<lparr>bnc_buffer = fifo, bnc_n_bytes_in_buffer = nbytes\<rparr>\<rparr>]\<rparr>)
   }"

definition first_ancestor :: "ancestors \<Rightarrow> (brtnode \<times> ancestors) option" where
  "first_ancestor next_ancestors =
     (case next_ancestors of [] \<Rightarrow> None | (node, childnum) # ancestors \<Rightarrow> Some (node, ancestors))"

text \<open>
  \<^verbatim>\<open>flush_this_child\<close>.  \<open>child\<close> is the node the cachetable hands out for the block of
  partition \<open>childnum\<close>; pinning it (\<^verbatim>\<open>toku_pin_brtnode_holding_lock\<close>) replays the messages of
  the ancestors into it when it is a leaf.  The node is reached by the callees through the
  list of ancestors, so after each of them it is read back from that list.  The result is
  the node, the child, the reactivity of the child and the ancestors of the node.
\<close>

definition flush_this_child ::
    "leaf_put \<Rightarrow> leaf_ext \<Rightarrow> buf_ext \<Rightarrow> flush_rec \<Rightarrow> brtnode \<Rightarrow> int \<Rightarrow> brtnode \<Rightarrow> bool \<Rightarrow> bool
     \<Rightarrow> ancestors \<Rightarrow> pivot_bounds \<Rightarrow> (brtnode \<times> brtnode \<times> reactivity \<times> ancestors) option" where
  "flush_this_child brt_leaf_put_cmd t x flush_some_child node childnum child is_first_flush
       flush_recursively ancestors bounds = do {
     toku_assert_entire_node_in_memory node;
     next_bounds \<leftarrow> next_pivot_keys node childnum bounds;
     assert (height node > 0);
     (node, childfullhash) \<leftarrow> compute_child_fullhash x node childnum;
     (child, next_ancestors) \<leftarrow>
       maybe_apply_ancestors_messages_to_node brt_leaf_put_cmd t child
         ((node, childnum) # ancestors) next_bounds;
     (node, ancestors) \<leftarrow> first_ancestor next_ancestors;
     toku_assert_entire_node_in_memory node;
     assert (thisnodename child \<noteq> 0);
     fifo \<leftarrow> BNC node childnum;
     if height child = 0 then do {
       assert_leaf_up_to_date child;
       let (buffer, nbytes) = drain_to_leaf x (bnc_buffer fifo) (bnc_n_bytes_in_buffer fifo);
       node \<leftarrow> set_child_buffer node childnum buffer nbytes;
       let node = node\<lparr>dirty := True\<rparr>;
       let child = child\<lparr>dirty := True\<rparr>;
       node \<leftarrow> fixup_child_estimates node childnum child True;
       child_re \<leftarrow> get_node_reactivity x child;
       Some (node, child, child_re, ancestors)
     }
     else do {
       assert (bnc_buffer fifo \<noteq> []);
       (buffer, nbytes, child) \<leftarrow>
         drain_to_nonleaf t x (bnc_buffer fifo) (bnc_n_bytes_in_buffer fifo) child;
       node \<leftarrow> set_child_buffer node childnum buffer nbytes;
       let node = node\<lparr>dirty := True\<rparr>;
       (child, next_ancestors) \<leftarrow>
         (if flush_recursively
          then flush_while_gorged (x, flush_some_child, is_first_flush, next_bounds, 0, child,
                                   (node, childnum) # ancestors)
          else Some (child, (node, childnum) # ancestors));
       (node, ancestors) \<leftarrow> first_ancestor next_ancestors;
       node \<leftarrow> fixup_child_estimates node childnum child True;
       child_re \<leftarrow> get_node_reactivity x child;
       Some (node, child, child_re, ancestors)
     }
   }"

text \<open>
  Two lists of ancestors have the same buffers when they name the same children and every
  node has the same partition payloads (FIFOs with their byte counts) in both.
\<close>

definition same_buffers :: "ancestors \<Rightarrow> ancestors \<Rightarrow> bool" where
  "same_buffers a b \<longleftrightarrow>
     map (\<lambda>na. (snd na, map bp_ptr (bp (fst na)))) a
     = map (\<lambda>na. (snd na, map bp_ptr (bp (fst na)))) b"

definition bytes_counted :: "buf_ext \<Rightarrow> nonleaf_childinfo \<Rightarrow> bool" where
  "bytes_counted x c \<longleftrightarrow>
     bnc_n_bytes_in_buffer c = sum_list (map (msg_nbytes x) (bnc_buffer c))"

section \<open>Searching\<close>

text \<open>
  The search object \<^verbatim>\<open>brt_search_t\<close>.  Its \<^verbatim>\<open>compare\<close> member is a function of the caller, which
  receives the search object and a key; here it receives the member \<^verbatim>\<open>k\<close> of the search and the
  key (a null pointer being \<open>None\<close>).
\<close>

datatype brt_search_direction_e = BRT_SEARCH_LEFT | BRT_SEARCH_RIGHT

record brt_search =
  search_compare :: "bytevec option \<Rightarrow> bytevec option \<Rightarrow> int"
  search_direction :: brt_search_direction_e
  search_k :: "bytevec option"
  have_pivot_bound :: bool
  pivot_bound :: bytevec

definition pair_leafval_heaviside_le :: "bytevec \<Rightarrow> brt_search \<Rightarrow> int" where
  "pair_leafval_heaviside_le kval search =
     (let cmp = search_compare search (search_k search)
                  (if search_k search \<noteq> None then Some kval else None) in
      case search_direction search of
        BRT_SEARCH_LEFT \<Rightarrow> (if cmp = 0 then - 1 else 1)
      | BRT_SEARCH_RIGHT \<Rightarrow> (if cmp = 0 then 1 else - 1))"

definition heaviside_from_search_t :: "brt_search \<Rightarrow> leafentry \<Rightarrow> int" where
  "heaviside_from_search_t search le = pair_leafval_heaviside_le (le_key le) search"

definition search_save_bound :: "brt_search \<Rightarrow> bytevec \<Rightarrow> brt_search" where
  "search_save_bound search pivot = search\<lparr>pivot_bound := pivot, have_pivot_bound := True\<rparr>"

definition search_pivot_is_bounded :: "leaf_ext \<Rightarrow> brt_search \<Rightarrow> bytevec \<Rightarrow> bool" where
  "search_pivot_is_bounded t search pivot =
     (if \<not> have_pivot_bound search then True
      else (let comp = compare_fun t pivot (pivot_bound search) in
            case search_direction search of
              BRT_SEARCH_LEFT \<Rightarrow> comp > 0
            | BRT_SEARCH_RIGHT \<Rightarrow> comp < 0))"

text \<open>
  \<^verbatim>\<open>toku_brt_search_which_child\<close>: \<open>c\<close> counts the pivots that were looked at, \<open>remaining\<close> those
  that are left.  A node without children has no \<^verbatim>\<open>child[0]\<close> to return.
\<close>

definition child_in_search_order :: "brtnode \<Rightarrow> brt_search \<Rightarrow> int \<Rightarrow> int" where
  "child_in_search_order node search c =
     (case search_direction search of
        BRT_SEARCH_LEFT \<Rightarrow> c
      | BRT_SEARCH_RIGHT \<Rightarrow> n_children node - 1 - c)"

fun which_child_loop :: "leaf_ext \<Rightarrow> brtnode \<Rightarrow> brt_search \<Rightarrow> nat \<Rightarrow> int \<Rightarrow> int option" where
  "which_child_loop t node search 0 c = Some (child_in_search_order node search c)"
| "which_child_loop t node search (Suc remaining) c = do {
     let p = (case search_direction search of
                BRT_SEARCH_LEFT \<Rightarrow> child_in_search_order node search c
              | BRT_SEARCH_RIGHT \<Rightarrow> child_in_search_order node search c - 1);
     assert (0 \<le> p);
     pivot \<leftarrow> childkey node (nat p);
     if search_pivot_is_bounded t search pivot \<and> search_compare search (search_k search) (Some pivot) \<noteq> 0
     then Some (child_in_search_order node search c)
     else which_child_loop t node search remaining (c + 1)
   }"

definition toku_brt_search_which_child :: "leaf_ext \<Rightarrow> brtnode \<Rightarrow> brt_search \<Rightarrow> int option" where
  "toku_brt_search_which_child t node search = do {
     assert (n_children node > 0);
     which_child_loop t node search (length (bp node) - 1) 0
   }"

definition maybe_search_save_bound :: "brtnode \<Rightarrow> int \<Rightarrow> brt_search \<Rightarrow> brt_search option" where
  "maybe_search_save_bound node child_searched search =
     (let p = (case search_direction search of
                 BRT_SEARCH_LEFT \<Rightarrow> child_searched
               | BRT_SEARCH_RIGHT \<Rightarrow> child_searched - 1) in
      if p \<ge> 0 \<and> p < n_children node - 1 then do {
        pivot \<leftarrow> childkey node (nat p);
        Some (search_save_bound search pivot)
      }
      else Some search)"

text \<open>
  Modelled from the spec: \<^verbatim>\<open>toku_omt_find\<close> of the ordered map, for a direction other than
  zero (``binary-search the basement with the heaviside'').  With a positive direction it finds
  the first entry on which the heaviside function is positive, with a negative direction the
  last entry on which it is negative; \<open>None\<close> is the return code \<^verbatim>\<open>DB_NOTFOUND\<close>.
\<close>

definition toku_omt_find :: "'a list \<Rightarrow> ('a \<Rightarrow> int) \<Rightarrow> int \<Rightarrow> ('a \<times> nat) option" where
  "toku_omt_find omt h direction =
     map_option (\<lambda>i. (omt ! i, i))
       (if direction > 0 then find (\<lambda>i. h (omt ! i) > 0) [0..<length omt]
        else find (\<lambda>i. h (omt ! i) < 0) (rev [0..<length omt]))"

text \<open>
  What \<^verbatim>\<open>brt_cursor_extract_key_and_val\<close> hands to the callback as the value: the whole leaf
  entry for a cursor in leaf mode, and otherwise the bytes of a value (\<open>None\<close> where the version
  holds none).  Modelled from the spec: \<^verbatim>\<open>le_iterate_val\<close> yields the value of the first version
  that the visibility callback accepts, and \<^verbatim>\<open>le_latest_val_and_len\<close> that of the latest version.
\<close>

datatype cursor_val = Entry leafentry | Val "bytevec option"

definition le_iterate_val ::
    "leafentry \<Rightarrow> (TXNID \<Rightarrow> tokutxn \<Rightarrow> int) \<Rightarrow> tokutxn \<Rightarrow> bytevec option" where
  "le_iterate_val le f context =
     (case find (\<lambda>v. f (fst v) context = TOKUDB_ACCEPT) (le_stack le) of
        None \<Rightarrow> None
      | Some v \<Rightarrow> snd v)"

definition brt_cursor_extract_key_and_val ::
    "leafentry \<Rightarrow> brt_cursor \<Rightarrow> (bytevec \<times> cursor_val) option" where
  "brt_cursor_extract_key_and_val le cursor =
     (if is_leaf_mode cursor then Some (le_key le, Entry le)
      else if is_snapshot_read cursor then
        (case ttxn cursor of
           None \<Rightarrow> None
         | Some context \<Rightarrow> Some (le_key le, Val (le_iterate_val le does_txn_read_entry context)))
      else Some (le_key le, Val (snd (le_latest le))))"

definition brt_cursor_update :: "brt_cursor \<Rightarrow> brt_cursor" where
  "brt_cursor_update brtcursor =
     (let brtcursor =
        (if \<not> current_in_omt brtcursor
         then brtcursor\<lparr>current_in_omt := True, omtcursor_omt := Some (fst (to_be brtcursor))\<rparr>
         else brtcursor) in
      brtcursor\<lparr>omtcursor_index := snd (to_be brtcursor)\<rparr>)"

text \<open>
  The callback \<^verbatim>\<open>getf\<close> of the caller receives a key and a value, or two null pointers
  (\<open>None\<close>), and its own argument \<^verbatim>\<open>getf_v\<close>, which it may change.  The state of a search holds,
  besides what the search writes, the list of the calls of \<^verbatim>\<open>getf\<close> so far, each with the code
  it returned.
\<close>

type_synonym getf_args = "(bytevec \<times> cursor_val) option"

type_synonym 'g brt_get_callback_function = "getf_args \<Rightarrow> 'g \<Rightarrow> int \<times> 'g"

text \<open>
  The header and the handle of a tree, as far as the search and the root put read them.
  \<open>cf\<close> stands for the cachefile with its file number; \<open>None\<close> is a null pointer.
\<close>

record remembered_hash =
  rh_valid :: bool
  rh_fnum :: u32
  rh_root :: u64
  rh_fullhash :: u32

record brt_header =
  h_root :: u64
  h_root_hash :: remembered_hash
  h_root_put_counter :: u64
  h_nodesize :: u32

record brt_handle =
  brt_h :: "brt_header option"
  brt_cf :: "u32 option"

definition compute_and_fill_remembered_hash :: "buf_ext \<Rightarrow> brt_handle \<Rightarrow> brt_handle option" where
  "compute_and_fill_remembered_hash x brt = do {
     hd \<leftarrow> brt_h brt;
     fnum \<leftarrow> brt_cf brt;
     Some (brt\<lparr>brt_h := Some (hd\<lparr>h_root_hash :=
       \<lparr>rh_valid = True, rh_fnum = fnum, rh_root = h_root hd,
        rh_fullhash = toku_cachetable_hash x (h_root hd)\<rparr>\<rparr>)\<rparr>)
   }"

definition get_roothash :: "buf_ext \<Rightarrow> brt_handle \<Rightarrow> (brt_handle \<times> u32) option" where
  "get_roothash x brt = do {
     hd \<leftarrow> brt_h brt;
     let rh = h_root_hash hd;
     known \<leftarrow> (if rh_valid rh then do {
                 fnum \<leftarrow> brt_cf brt;
                 Some (rh_fnum rh = fnum \<and> rh_root rh = h_root hd)
               } else Some False);
     if known then Some (brt, rh_fullhash rh)
     else do {
       brt \<leftarrow> compute_and_fill_remembered_hash x brt;
       hd \<leftarrow> brt_h brt;
       Some (brt, rh_fullhash (h_root_hash hd))
     }
   }"

definition toku_calculate_root_offset_pointer ::
    "buf_ext \<Rightarrow> brt_handle \<Rightarrow> (brt_handle \<times> u64 \<times> u32) option" where
  "toku_calculate_root_offset_pointer x brt = do {
     (brt, roothash) \<leftarrow> get_roothash x brt;
     hd \<leftarrow> brt_h brt;
     Some (brt, h_root hd, roothash)
   }"

text \<open>
  The cachetable is not among the sources.  Its state is a parameter \<open>'c\<close>, and so are the
  operations on it that the search uses:

  \<^item> \<^verbatim>\<open>toku_cachetable_get_and_pin\<close> returns a code and, with the code \<open>0\<close>, the node; on the way
    it runs the fetch callbacks with the \<^verbatim>\<open>brtnode_fetch_extra\<close>, which for a search sets the
    member \<^verbatim>\<open>child_to_read\<close>, returned here with the node;
  \<^item> \<^verbatim>\<open>toku_cachetable_get_and_pin_nonblocking\<close> is given the unlockers too, here the nodes whose
    pins they release; when it returns \<^verbatim>\<open>TOKUDB_TRY_AGAIN\<close> it has run them, which unpins every
    node of the chain and clears the flag \<^verbatim>\<open>locked\<close> of every unlocker of the chain;
  \<^item> \<^verbatim>\<open>toku_cachetable_unpin\<close> returns a code.
\<close>

record 'c cachetable_ops =
  toku_cachetable_get_and_pin ::
    "'c \<Rightarrow> u64 \<Rightarrow> u32 \<Rightarrow> brt_search option \<Rightarrow> 'c \<times> int \<times> (brtnode \<times> int) option"
  toku_cachetable_get_and_pin_nonblocking ::
    "'c \<Rightarrow> u64 \<Rightarrow> u32 \<Rightarrow> brt_search option \<Rightarrow> brtnode list
     \<Rightarrow> 'c \<times> int \<times> (brtnode \<times> int) option"
  toku_cachetable_unpin :: "'c \<Rightarrow> brtnode \<Rightarrow> 'c \<times> int"

text \<open>Everything that a search is given and does not write.\<close>

record ('c, 'g) search_env =
  env_put :: leaf_put
  env_t :: leaf_ext
  env_x :: buf_ext
  env_ct :: "'c cachetable_ops"
  env_getf :: "'g brt_get_callback_function"

text \<open>
  Everything that a search writes.  All unlockers of the chain that is alive have the same
  flag \<^verbatim>\<open>locked\<close>: each is created with the flag set, and only the cachetable clears flags, those
  of the whole chain at once, after which the search returns \<^verbatim>\<open>TOKUDB_TRY_AGAIN\<close> from every
  level.  The state holds this one flag.
\<close>

record ('c, 'g) search_state =
  ss_brt :: brt_handle
  ss_search :: brt_search
  ss_cursor :: brt_cursor
  ss_ct :: 'c
  ss_getf_v :: 'g
  ss_calls :: "(getf_args \<times> int) list"
  ss_doprefetch :: bool
  ss_locked :: bool

definition toku_pin_brtnode ::
    "('c, 'g) search_env \<Rightarrow> 'c \<Rightarrow> u64 \<Rightarrow> u32 \<Rightarrow> brtnode list \<Rightarrow> ancestors \<Rightarrow> pivot_bounds
     \<Rightarrow> brt_search option \<Rightarrow> ('c \<times> int \<times> (brtnode \<times> int \<times> ancestors) option) option" where
  "toku_pin_brtnode env ct blocknum hash unlockers ancestors bounds bfe =
     (case toku_cachetable_get_and_pin_nonblocking (env_ct env) ct blocknum hash bfe unlockers of
        (ct, r, got) \<Rightarrow>
          if r = 0 then do {
            (node, child_to_read) \<leftarrow> got;
            (node, ancestors) \<leftarrow>
              maybe_apply_ancestors_messages_to_node (env_put env) (env_t env) node ancestors bounds;
            Some (ct, r, Some (node, child_to_read, ancestors))
          }
          else do {
            assert (r = TOKUDB_TRY_AGAIN);
            Some (ct, r, None)
          })"

definition toku_pin_brtnode_holding_lock ::
    "('c, 'g) search_env \<Rightarrow> 'c \<Rightarrow> u64 \<Rightarrow> u32 \<Rightarrow> ancestors \<Rightarrow> pivot_bounds
     \<Rightarrow> brt_search option \<Rightarrow> ('c \<times> brtnode \<times> int \<times> ancestors) option" where
  "toku_pin_brtnode_holding_lock env ct blocknum hash ancestors bounds bfe =
     (case toku_cachetable_get_and_pin (env_ct env) ct blocknum hash bfe of
        (ct, r, got) \<Rightarrow> do {
          assert (r = 0);
          (node, child_to_read) \<leftarrow> got;
          (node, ancestors) \<leftarrow>
            maybe_apply_ancestors_messages_to_node (env_put env) (env_t env) node ancestors bounds;
          Some (ct, node, child_to_read, ancestors)
        })"

definition toku_unpin_brtnode :: "('c, 'g) search_env \<Rightarrow> 'c \<Rightarrow> brtnode \<Rightarrow> 'c option" where
  "toku_unpin_brtnode env ct node =
     (case toku_cachetable_unpin (env_ct env) ct node of
        (ct, r) \<Rightarrow> do { assert (r = 0); Some ct })"

text \<open>
  The loop of \<^verbatim>\<open>brt_search_basement_node\<close> that walks over the entries whose value is deleted:
  the entries that are left in the direction of the search, nearest first, and the index of
  the first of them.  \<open>None\<close> inside is the return code \<^verbatim>\<open>DB_NOTFOUND\<close>.
\<close>

fun scan_past_deleted ::
    "brt_cursor \<Rightarrow> (nat \<Rightarrow> nat) \<Rightarrow> leafentry list \<Rightarrow> nat \<Rightarrow> (leafentry \<times> nat) option option" where
  "scan_past_deleted brtcursor next [] idx = Some None"
| "scan_past_deleted brtcursor next (le # les) idx = do {
     del \<leftarrow> is_le_val_del le brtcursor;
     if \<not> del then Some (Some (le, idx))
     else scan_past_deleted brtcursor next les (next idx)
   }"

definition brt_search_basement_node ::
    "('c, 'g) search_env \<Rightarrow> basementnode \<Rightarrow> ('c, 'g) search_state
     \<Rightarrow> (int \<times> ('c, 'g) search_state) option" where
  "brt_search_basement_node env bn st = do {
     assert (bn_soft_copy_is_up_to_date bn);
     let search = ss_search st;
     let brtcursor = ss_cursor st;
     let direction = (case search_direction search of
                        BRT_SEARCH_LEFT \<Rightarrow> 1 | BRT_SEARCH_RIGHT \<Rightarrow> - 1);
     case toku_omt_find (bn_buffer bn) (heaviside_from_search_t search) direction of
       None \<Rightarrow> Some (DB_NOTFOUND, st)
     | Some (le, idx) \<Rightarrow> do {
         good \<leftarrow>
           (if is_leaf_mode brtcursor then Some (Some (le, idx))
            else do {
              del \<leftarrow> is_le_val_del le brtcursor;
              if del then
                (case search_direction search of
                   BRT_SEARCH_LEFT \<Rightarrow>
                     scan_past_deleted brtcursor (\<lambda>i. i + 1)
                       (drop (idx + 1) (take (unat (toku_omt_size (bn_buffer bn))) (bn_buffer bn)))
                       (idx + 1)
                 | BRT_SEARCH_RIGHT \<Rightarrow>
                     scan_past_deleted brtcursor (\<lambda>i. i - 1) (rev (take idx (bn_buffer bn)))
                       (idx - 1))
              else Some (Some (le, idx))
            });
         case good of
           None \<Rightarrow> Some (DB_NOTFOUND, st)
         | Some (le, idx) \<Rightarrow> do {
             (key, val) \<leftarrow> brt_cursor_extract_key_and_val le brtcursor;
             assert (\<not> current_in_omt brtcursor);
             (r, getf_v) \<leftarrow> Some (env_getf env (Some (key, val)) (ss_getf_v st));
             let st = st\<lparr>ss_getf_v := getf_v, ss_calls := ss_calls st @ [(Some (key, val), r)]\<rparr>;
             Some (r, if r = 0
                      then st\<lparr>ss_cursor := brt_cursor_update (brtcursor\<lparr>to_be := (bn_buffer bn, idx)\<rparr>),
                              ss_doprefetch := True\<rparr>
                      else st)
           }
       }
   }"

text \<open>
  \<^verbatim>\<open>brt_search_node\<close> and \<^verbatim>\<open>brt_search_child\<close> call each other down the tree, and the nodes come
  from the cachetable, so nothing bounds the depth of the descent; \<open>fuel\<close> bounds the number of
  descents and of rounds of the \<^verbatim>\<open>while\<close> loop of \<^verbatim>\<open>brt_search_node\<close>, and a search that needs
  more has no result.  \<open>brt_search_node_loop\<close> is that loop, with the value of \<open>r\<close> on entry,
  and \<open>brt_search_node_round\<close> one round of it; the functions whose name ends in \<open>_with\<close> are
  the bodies of the functions of the source, given the loop to be run with the fuel that is
  left.

  The nodes are written on the way (the replay of messages into a leaf writes the leaf and
  the estimates of its ancestors), so the functions return the node and its ancestors with the
  return code.
\<close>

type_synonym ('c, 'g) search_result =
  "(int \<times> ('c, 'g) search_state \<times> brtnode \<times> ancestors) option"

type_synonym ('c, 'g) search_loop =
  "brtnode \<Rightarrow> int \<Rightarrow> int \<Rightarrow> ancestors \<Rightarrow> pivot_bounds \<Rightarrow> ('c, 'g) search_state
   \<Rightarrow> ('c, 'g) search_result"

definition brt_search_node_with ::
    "('c, 'g) search_loop \<Rightarrow> brtnode \<Rightarrow> int \<Rightarrow> ancestors \<Rightarrow> pivot_bounds
     \<Rightarrow> ('c, 'g) search_state \<Rightarrow> ('c, 'g) search_result" where
  "brt_search_node_with loop node child_to_search ancestors bounds st = do {
     assert (child_to_search \<ge> 0 \<or> child_to_search < n_children node);
     p \<leftarrow> BP node child_to_search;
     assert (bp_state p = PT_AVAIL);
     loop node child_to_search 0 ancestors bounds st
   }"

definition brt_search_child_with ::
    "('c, 'g) search_env \<Rightarrow> ('c, 'g) search_loop \<Rightarrow> brtnode \<Rightarrow> int \<Rightarrow> ancestors
     \<Rightarrow> pivot_bounds \<Rightarrow> ('c, 'g) search_state \<Rightarrow> ('c, 'g) search_result" where
  "brt_search_child_with env loop node childnum ancestors bounds st = do {
     p \<leftarrow> BP node childnum;
     let childblocknum = bp_blocknum p;
     (node, hash) \<leftarrow> compute_child_fullhash (env_x env) node childnum;
     let next_ancestors = (node, childnum) # ancestors;
     (ct, rr, pinned) \<leftarrow>
       toku_pin_brtnode env (ss_ct st) childblocknum hash (map fst next_ancestors)
         next_ancestors bounds (Some (ss_search st));
     let st = st\<lparr>ss_ct := ct\<rparr>;
     if rr = TOKUDB_TRY_AGAIN then Some (rr, st\<lparr>ss_locked := False\<rparr>, node, ancestors)
     else do {
       assert (rr = 0);
       (childnode, child_to_read, next_ancestors) \<leftarrow> pinned;
       (r, st, childnode, next_ancestors) \<leftarrow>
         brt_search_node_with loop childnode child_to_read next_ancestors bounds st;
       st \<leftarrow>
         (if r \<noteq> TOKUDB_TRY_AGAIN then do {
            assert (ss_locked st);
            ct \<leftarrow> toku_unpin_brtnode env (ss_ct st) childnode;
            Some (st\<lparr>ss_ct := ct\<rparr>)
          }
          else if ss_locked st then do {
            ct \<leftarrow> toku_unpin_brtnode env (ss_ct st) childnode;
            Some (st\<lparr>ss_ct := ct\<rparr>)
          }
          else Some st);
       (case next_ancestors of
          [] \<Rightarrow> None
        | (node, childnum) # ancestors \<Rightarrow> Some (r, st, node, ancestors))
     }
   }"

definition brt_search_node_round ::
    "('c, 'g) search_env \<Rightarrow> ('c, 'g) search_loop \<Rightarrow> ('c, 'g) search_loop" where
  "brt_search_node_round env loop node child_to_search r ancestors bounds st =
     (if child_to_search \<ge> 0 \<and> child_to_search < n_children node then do {
        p \<leftarrow> BP node child_to_search;
        if bp_state p \<noteq> PT_AVAIL then Some (TOKUDB_TRY_AGAIN, st, node, ancestors)
        else do {
          next_bounds \<leftarrow> next_pivot_keys node child_to_search bounds;
          (r, st, node, ancestors) \<leftarrow>
            (if height node > 0
             then brt_search_child_with env loop node child_to_search ancestors next_bounds st
             else do {
               bn \<leftarrow> BLB node child_to_search;
               (r, st) \<leftarrow> brt_search_basement_node env bn st;
               Some (r, st, node, ancestors)
             });
          if r = 0 then Some (r, st, node, ancestors)
          else if r \<noteq> DB_NOTFOUND then Some (r, st, node, ancestors)
          else do {
            search \<leftarrow> maybe_search_save_bound node child_to_search (ss_search st);
            let st = st\<lparr>ss_search := search\<rparr>;
            loop node
              (case search_direction search of
                 BRT_SEARCH_LEFT \<Rightarrow> child_to_search + 1
               | BRT_SEARCH_RIGHT \<Rightarrow> child_to_search - 1)
              r ancestors bounds st
          }
        }
      }
      else Some (r, st, node, ancestors))"

primrec brt_search_node_loop :: "('c, 'g) search_env \<Rightarrow> nat \<Rightarrow> ('c, 'g) search_loop" where
  "brt_search_node_loop env 0 = (\<lambda>node child_to_search r ancestors bounds st. None)"
| "brt_search_node_loop env (Suc fuel) = brt_search_node_round env (brt_search_node_loop env fuel)"

definition brt_search_node ::
    "('c, 'g) search_env \<Rightarrow> nat \<Rightarrow> brtnode \<Rightarrow> int \<Rightarrow> ancestors \<Rightarrow> pivot_bounds
     \<Rightarrow> ('c, 'g) search_state \<Rightarrow> ('c, 'g) search_result" where
  "brt_search_node env fuel = brt_search_node_with (brt_search_node_loop env fuel)"

definition brt_search_child ::
    "('c, 'g) search_env \<Rightarrow> nat \<Rightarrow> brtnode \<Rightarrow> int \<Rightarrow> ancestors \<Rightarrow> pivot_bounds
     \<Rightarrow> ('c, 'g) search_state \<Rightarrow> ('c, 'g) search_result" where
  "brt_search_child env fuel = brt_search_child_with env (brt_search_node_loop env fuel)"

text \<open>
  \<^verbatim>\<open>toku_brt_search\<close>.  Every round of \<^verbatim>\<open>goto try_again\<close> takes one unit of fuel.  The result is
  the return code, what was stored to \<^verbatim>\<open>*root_put_counter\<close>, and the state.
\<close>

fun toku_brt_search ::
    "('c, 'g) search_env \<Rightarrow> nat \<Rightarrow> ('c, 'g) search_state
     \<Rightarrow> (int \<times> u64 \<times> ('c, 'g) search_state) option" where
  "toku_brt_search env 0 st = None"
| "toku_brt_search env (Suc fuel) st = do {
     hd \<leftarrow> brt_h (ss_brt st);
     let root_put_counter = h_root_put_counter hd;
     (brt, root, hash) \<leftarrow> toku_calculate_root_offset_pointer (env_x env) (ss_brt st);
     (ct, node, child_to_read, ancestors) \<leftarrow>
       toku_pin_brtnode_holding_lock env (ss_ct st) root hash [] infinite_bounds
         (Some (ss_search st));
     let st = st\<lparr>ss_brt := brt, ss_ct := ct, ss_locked := True, ss_doprefetch := False\<rparr>;
     (r, st, node, ancestors) \<leftarrow>
       brt_search_node env fuel node child_to_read [] infinite_bounds st;
     if r = TOKUDB_TRY_AGAIN then do {
       st \<leftarrow> (if ss_locked st then do {
                ct \<leftarrow> toku_unpin_brtnode env (ss_ct st) node;
                Some (st\<lparr>ss_ct := ct\<rparr>)
              } else Some st);
       toku_brt_search env fuel st
     }
     else do {
       assert (ss_locked st);
       ct \<leftarrow> toku_unpin_brtnode env (ss_ct st) node;
       let st = st\<lparr>ss_ct := ct\<rparr>;
       if r = TOKUDB_FOUND_BUT_REJECTED then Some (DB_NOTFOUND, root_put_counter, st)
       else if r = DB_NOTFOUND then
         (let (r2, getf_v) = env_getf env None (ss_getf_v st);
              st = st\<lparr>ss_getf_v := getf_v, ss_calls := ss_calls st @ [(None, r2)]\<rparr> in
          Some (if r2 \<noteq> 0 then r2 else r, root_put_counter, st))
       else Some (r, root_put_counter, st)
     }
   }"

section \<open>Example values\<close>

text \<open>Small concrete contexts, entries and nodes on which the properties below are run.\<close>

definition child_reader :: tokutxn where
  "child_reader = \<lparr>ancestor_txnid64 = 4, snapshot_txnid64 = 5,
                    oldest_in_live_root_txn_list = 4, live_root_txn_list = [4]\<rparr>"

definition snapshot_cursor :: brt_cursor where
  "snapshot_cursor = \<lparr>is_snapshot_read = True, is_leaf_mode = False, ttxn = Some child_reader,
                      current_in_omt = False, to_be = ([], 0), omtcursor_omt = None,
                      omtcursor_index = 0\<rparr>"

definition le_two_versions :: leafentry where
  "le_two_versions = \<lparr>le_key = [1], le_latest = (5, Some [9]), le_older = [(2, None)]\<rparr>"

definition le_of_key :: "bytevec \<Rightarrow> leafentry" where
  "le_of_key k = \<lparr>le_key = k, le_latest = (0, Some []), le_older = []\<rparr>"

definition bn_of :: "leafentry list \<Rightarrow> u32 \<Rightarrow> basementnode" where
  "bn_of les seq = \<lparr>bn_buffer = les, bn_n_bytes_in_buffer = 0, bn_seqinsert = seq,
                     bn_optimized_for_upgrade = 0, bn_soft_copy_is_up_to_date = True\<rparr>"

definition partition_of :: "child_ptr \<Rightarrow> brtnode_partition" where
  "partition_of p = \<lparr>bp_blocknum = 0, bp_have_fullhash = False, bp_fullhash = 0,
                      bp_state = PT_AVAIL, bp_subtree_est = zero_estimates, bp_ptr = p\<rparr>"

definition leaf_of :: "bool \<Rightarrow> u32 \<Rightarrow> basementnode list \<Rightarrow> brtnode" where
  "leaf_of d nsz bns = \<lparr>nodesize = nsz, flags = 0, thisnodename = 1, fullhash = 0, height = 0,
     dirty = d, max_msn_applied_to_node_on_disk = 0, max_msn_applied_to_node_in_memory = 0,
     totalchildkeylens = 0, childkeys = [], bp = map (partition_of \<circ> Basement) bns\<rparr>"

definition clean_big_leaf :: brtnode where
  "clean_big_leaf = leaf_of False 10 [bn_of [le_of_key [1], le_of_key [2]] 0]"

definition dirty_big_leaf :: brtnode where
  "dirty_big_leaf = leaf_of True 10 [bn_of [le_of_key [1], le_of_key [2]] 0]"

definition size_100 :: "brtnode \<Rightarrow> u32" where
  "size_100 node = 100"

fun lex_cmp :: "bytevec \<Rightarrow> bytevec \<Rightarrow> int" where
  "lex_cmp [] [] = 0"
| "lex_cmp [] (y # ys) = - 1"
| "lex_cmp (x # xs) [] = 1"
| "lex_cmp (x # xs) (y # ys) = (if x < y then - 1 else if y < x then 1 else lex_cmp xs ys)"

definition insert_only_apply :: "brt_msg \<Rightarrow> leafentry option \<Rightarrow> leafentry option" where
  "insert_only_apply cmd le =
     (if msg_type cmd = BRT_INSERT \<or> msg_type cmd = BRT_INSERT_NO_OVERWRITE
      then Some \<lparr>le_key = msg_key cmd, le_latest = (0, Some (msg_val cmd)), le_older = []\<rparr>
      else le)"

definition key_val_size :: "leafentry \<Rightarrow> u32" where
  "key_val_size le = le_keylen le + le_latest_vallen le"

definition ext_simple :: leaf_ext where
  "ext_simple = \<lparr>apply_msg_to_leafentry = insert_only_apply, leafentry_disksize = key_val_size,
                  OMT_ITEM_OVERHEAD = 0, compare_fun = lex_cmp\<rparr>"

definition bn_five :: basementnode where
  "bn_five = bn_of [le_of_key [1], le_of_key [2], le_of_key [3], le_of_key [4], le_of_key [5]] 1"

definition bn_six :: basementnode where
  "bn_six = \<lparr>bn_buffer = [le_of_key [1], le_of_key [2], le_of_key [3], le_of_key [4],
                           le_of_key [5], le_of_key [6]],
             bn_n_bytes_in_buffer = 1, bn_seqinsert = 2,
             bn_optimized_for_upgrade = 0, bn_soft_copy_is_up_to_date = True\<rparr>"

definition insert_key :: "bytevec \<Rightarrow> MSN \<Rightarrow> brt_msg" where
  "insert_key k m = \<lparr>msg_type = BRT_INSERT, msg_msn = m, msg_xids = [], msg_key = k, msg_val = []\<rparr>"

definition leaf_in_memory :: "brtnode \<Rightarrow> bool" where
  "leaf_in_memory a \<longleftrightarrow>
     height a = 0 \<and> bp a \<noteq> [] \<and> length (childkeys a) = length (bp a) - 1 \<and>
     list_all (\<lambda>p. bp_state p = PT_AVAIL \<and> (case bp_ptr p of Basement bn \<Rightarrow> True | _ \<Rightarrow> False))
       (bp a)"

definition named_leaf :: "u64 \<Rightarrow> u32 \<Rightarrow> leafentry list \<Rightarrow> brtnode" where
  "named_leaf name nsz les = (leaf_of False nsz [bn_of les 0])\<lparr>thisnodename := name\<rparr>"

definition wide_parent :: brtnode where
  "wide_parent = \<lparr>nodesize = 1431655766, flags = 0, thisnodename = 1, fullhash = 0, height = 1,
     dirty = False, max_msn_applied_to_node_on_disk = 0, max_msn_applied_to_node_in_memory = 0,
     totalchildkeylens = 1, childkeys = [[2]],
     bp = [partition_of (Childinfo \<lparr>bnc_buffer = [], bnc_n_bytes_in_buffer = 0\<rparr>),
           partition_of (Childinfo \<lparr>bnc_buffer = [], bnc_n_bytes_in_buffer = 0\<rparr>)]\<rparr>"

definition size_per_entry :: "brtnode \<Rightarrow> u32" where
  "size_per_entry node = 16 + 16 * of_nat (length (concat (map
      (\<lambda>p. case bp_ptr p of Basement bn \<Rightarrow> bn_buffer bn | _ \<Rightarrow> []) (bp node))))"

definition leaf_entries :: "brtnode \<Rightarrow> leafentry list list" where
  "leaf_entries node =
     map (\<lambda>p. case bp_ptr p of Basement bn \<Rightarrow> bn_buffer bn | _ \<Rightarrow> []) (bp node)"

definition sx_simple :: split_ext where
  "sx_simple = \<lparr>toku_brt_pivot_key_len = (\<lambda>k. of_nat (length k)), empty_bn = bn_of [] 0\<rparr>"

definition stale_leaf :: brtnode where
  "stale_leaf = (leaf_of False 100
       [(bn_of [le_of_key [1]] 0)\<lparr>bn_soft_copy_is_up_to_date := False\<rparr>])
     \<lparr>thisnodename := 2, max_msn_applied_to_node_on_disk := 3,
      max_msn_applied_to_node_in_memory := 3\<rparr>"

definition parent_with_buffer :: "brt_msg list \<Rightarrow> MSN \<Rightarrow> brtnode" where
  "parent_with_buffer fifo msn = \<lparr>nodesize = 100, flags = 0, thisnodename = 1, fullhash = 0,
     height = 1, dirty = False, max_msn_applied_to_node_on_disk = 0,
     max_msn_applied_to_node_in_memory = msn, totalchildkeylens = 0, childkeys = [],
     bp = [(partition_of (Childinfo \<lparr>bnc_buffer = fifo, bnc_n_bytes_in_buffer = 0\<rparr>))
             \<lparr>bp_blocknum := 2\<rparr>]\<rparr>"

definition put_simple :: leaf_put where
  "put_simple = brt_leaf_put_cmd_insert ext_simple"

text \<open>
  A nonleaf node all of whose partitions are in memory and hold a FIFO, with one pivot
  between any two children: the shape the put functions need in order not to stop at an
  assertion other than the one on the msn.
\<close>

definition nonleaf_in_memory :: "brtnode \<Rightarrow> bool" where
  "nonleaf_in_memory node \<longleftrightarrow>
     height node > 0 \<and> bp node \<noteq> [] \<and> length (childkeys node) = length (bp node) - 1 \<and>
     list_all (\<lambda>p. bp_state p = PT_AVAIL \<and> (case bp_ptr p of Childinfo c \<Rightarrow> True | _ \<Rightarrow> False))
       (bp node)"

definition stamp_msn :: "brtnode \<Rightarrow> brt_msg \<Rightarrow> brt_msg" where
  "stamp_msn node cmd = cmd\<lparr>msg_msn := max_msn_applied_to_node_in_memory node + 1\<rparr>"



section \<open>Snapshot visibility\<close>

lemma does_txn_read_entry_iff:
  "does_txn_read_entry xid ctx = TOKUDB_ACCEPT \<longleftrightarrow>
     xid = ancestor_txnid64 ctx \<or> xid < oldest_in_live_root_txn_list ctx \<or>
     (xid \<le> snapshot_txnid64 ctx \<and> xid \<notin> set (live_root_txn_list ctx))"
  by (auto simp: does_txn_read_entry_def toku_get_oldest_in_live_root_txn_list_def
      toku_is_txn_in_live_root_txn_list_def TOKUDB_ACCEPT_def Let_def)

lemma find_first_accepted:
  "\<forall>y \<in> set pre. \<not> P y \<Longrightarrow> P x \<Longrightarrow> find P (pre @ x # post) = Some x"
  by (induction pre) auto

text \<open>
  Whenever the snapshot id of the context is its root transaction id or is in its live list,
  the bound on the snapshot id is strict, as the comment above \<^verbatim>\<open>does_txn_read_entry\<close> says.
\<close>

lemma does_txn_read_entry_strict:
  assumes "snapshot_txnid64 ctx = ancestor_txnid64 ctx \<or>
           snapshot_txnid64 ctx \<in> set (live_root_txn_list ctx)"
  shows "does_txn_read_entry xid ctx = TOKUDB_ACCEPT \<longleftrightarrow>
           xid = ancestor_txnid64 ctx \<or> xid < oldest_in_live_root_txn_list ctx \<or>
           (xid < snapshot_txnid64 ctx \<and> xid \<notin> set (live_root_txn_list ctx))"
  unfolding does_txn_read_entry_iff using assms by (auto simp: order_le_less)

text \<open>
  A snapshot read of a leaf entry reports the first version on the entry's stack that
  \<^verbatim>\<open>does_txn_read_entry\<close> accepts.
\<close>

lemma is_le_val_del_first_accepted:
  assumes "is_snapshot_read c" and "ttxn c = Some ctx" and "le_stack le = pre @ (x, v) # post"
    and "\<forall>y \<in> set pre. does_txn_read_entry (fst y) ctx \<noteq> TOKUDB_ACCEPT"
    and "does_txn_read_entry x ctx = TOKUDB_ACCEPT"
  shows "is_le_val_del le c = Some (v = None)"
proof -
  from assms(4,5)
  have "find (\<lambda>v. does_txn_read_entry (fst v) ctx = TOKUDB_ACCEPT) (pre @ (x, v) # post)
             = Some (x, v)"
    by (intro find_first_accepted) auto
  with assms(1-3) show ?thesis
    by (simp add: is_le_val_del_def le_iterate_is_del_def)
qed

text \<open>
  C6: \<^verbatim>\<open>does_txn_read_entry\<close> accepts a transaction id exactly when it equals the context's
  root transaction id, or is less than the oldest transaction live in the context's snapshot,
  or is less than the context's snapshot id and not in the context's live root transaction
  list.  The comment above the function states the same strict bound
  (``\<^verbatim>\<open>id < context->snapshot_txnid64\<close> AND id is not in context's live root transaction
  list''), but the code rejects with \<^verbatim>\<open>id > context->snapshot_txnid64\<close> and so accepts an id
  equal to the snapshot id.  For the reader \<open>child_reader\<close>, whose root transaction \<open>4\<close> is the
  only live one and whose snapshot id is \<open>5\<close>, the id \<open>5\<close> is not the root, not below the
  oldest live transaction and not below the snapshot id; the code accepts it, and a snapshot
  read of a leaf entry with the versions \<open>(5, value)\<close> and \<open>(2, delete)\<close> reports the value of
  the first instead of the deletion of the second.
\<close>

theorem C6_accepts_id_equal_to_snapshot_id:
  "does_txn_read_entry 5 child_reader = TOKUDB_ACCEPT \<and>
   ancestor_txnid64 child_reader = 4 \<and>
   oldest_in_live_root_txn_list child_reader = 4 \<and>
   snapshot_txnid64 child_reader = 5 \<and>
   live_root_txn_list child_reader = [4] \<and>
   le_stack le_two_versions = [(5, Some [9]), (2, None)] \<and>
   does_txn_read_entry 2 child_reader = TOKUDB_ACCEPT \<and>
   is_le_val_del le_two_versions snapshot_cursor = Some False"
  by (simp add: does_txn_read_entry_def toku_get_oldest_in_live_root_txn_list_def
      toku_is_txn_in_live_root_txn_list_def TOKUDB_ACCEPT_def child_reader_def
      le_stack_def le_two_versions_def is_le_val_del_def le_iterate_is_del_def
      snapshot_cursor_def)

section \<open>Reactivity of a leaf\<close>

lemma unat_times4:
  "unat (x :: u32) < 2 ^ 30 \<Longrightarrow> unat (x * 4) = 4 * unat x"
  by (simp add: unat_word_ariths)

text \<open>
  C4, as the claim states it, fails: \<^verbatim>\<open>get_leaf_reactivity\<close> looks at the size only when the
  node is dirty.  A clean leaf whose serialized size (100) exceeds its node size (10) and
  which holds two entries is classified STABLE, not FISSIBLE.
\<close>

theorem C4_clean_leaf_counterexample:
  "get_leaf_reactivity size_100 clean_big_leaf = Some RE_STABLE \<and>
   size_100 clean_big_leaf > nodesize clean_big_leaf \<and>
   get_leaf_num_entries clean_big_leaf = Some 2"
  by (simp add: get_leaf_reactivity_def get_leaf_num_entries_def
      toku_assert_entire_node_in_memory_def assert_def clean_big_leaf_def leaf_of_def
      partition_of_def bn_of_def size_100_def toku_omt_size_def)

text \<open>
  C4, amended: for every leaf node whose entries can be counted (\<open>n\<close> of them) and whose
  serialized size is below \<open>2^30\<close> (so that four times the size fits the \<^verbatim>\<open>unsigned int\<close> the
  code computes it in), the classifier returns FISSIBLE if and only if the node is dirty,
  its serialized size exceeds nodesize and it holds more than one leaf entry; FUSIBLE if and
  only if the node is dirty, four times the serialized size is less than nodesize and the
  last basement is not in a sequential-insert streak; and STABLE otherwise.  In particular a
  clean leaf is always STABLE.
\<close>

theorem C4_leaf_reactivity:
  assumes "height node = 0"
    and "get_leaf_num_entries node = Some n"
    and "BLB node (n_children node - 1) = Some bn"
    and "unat (ssize node) < 2 ^ 30"
  shows "\<exists>re. get_leaf_reactivity ssize node = Some re \<and>
    (re = RE_FISSIBLE \<longleftrightarrow> dirty node \<and> ssize node > nodesize node \<and> n > 1) \<and>
    (re = RE_FUSIBLE \<longleftrightarrow>
       dirty node \<and> 4 * unat (ssize node) < unat (nodesize node) \<and> bn_seqinsert bn = 0) \<and>
    (re = RE_STABLE \<longleftrightarrow>
       \<not> (dirty node \<and> ssize node > nodesize node \<and> n > 1) \<and>
       \<not> (dirty node \<and> 4 * unat (ssize node) < unat (nodesize node) \<and> bn_seqinsert bn = 0))"
proof -
  have lt: "ssize node * 4 < nodesize node \<longleftrightarrow> 4 * unat (ssize node) < unat (nodesize node)"
    using unat_times4 [OF assms(4)] by (simp add: word_less_nat_alt)
  have gt: "ssize node > nodesize node \<Longrightarrow> \<not> 4 * unat (ssize node) < unat (nodesize node)"
    by (simp add: word_less_nat_alt)
  show ?thesis
    using assms(1-3) lt gt
    by (auto simp: get_leaf_reactivity_def assert_def Let_def)
qed

theorem C4_leaf_reactivity_witness:
  "get_leaf_reactivity size_100 dirty_big_leaf = Some RE_FISSIBLE"
proof -
  have h1: "height dirty_big_leaf = 0"
    by (simp add: dirty_big_leaf_def leaf_of_def)
  have h2: "get_leaf_num_entries dirty_big_leaf = Some 2"
    by (simp add: get_leaf_num_entries_def toku_assert_entire_node_in_memory_def assert_def
        dirty_big_leaf_def leaf_of_def partition_of_def bn_of_def toku_omt_size_def)
  have h3: "BLB dirty_big_leaf (n_children dirty_big_leaf - 1)
            = Some (bn_of [le_of_key [1], le_of_key [2]] 0)"
    by (simp add: BLB_def BP_def n_children_def dirty_big_leaf_def leaf_of_def partition_of_def)
  have h4: "unat (size_100 dirty_big_leaf) < 2 ^ 30"
    by (simp add: size_100_def)
  from C4_leaf_reactivity [where node = dirty_big_leaf and ssize = size_100, OF h1 h2 h3 h4]
  show ?thesis
    by (auto simp: size_100_def dirty_big_leaf_def leaf_of_def)
qed

section \<open>The sequential-insert streak\<close>

lemma brt_leaf_delete_leafentry_seqinsert:
  "brt_leaf_delete_leafentry t bn se idx le = Some (bn', se') \<Longrightarrow>
   bn_seqinsert bn' = bn_seqinsert bn"
  by (auto simp: brt_leaf_delete_leafentry_def Let_def split: Option.bind_splits)

lemma brt_leaf_apply_cmd_once_seqinsert:
  "brt_leaf_apply_cmd_once t bn se cmd idx le = Some (bn', se') \<Longrightarrow>
   bn_seqinsert bn' = bn_seqinsert bn"
  by (auto simp: brt_leaf_apply_cmd_once_def Let_def
      dest: brt_leaf_delete_leafentry_seqinsert
      split: Option.bind_splits option.splits)

lemma seqinsert_window_eq: "seqinsert_window s = max 1 (min 32 (s div 16))"
  by (auto simp: seqinsert_window_def Let_def)

text \<open>
  C8, as the claim states it, fails: the window is never smaller than one entry.  A basement
  of five entries with a streak in progress receives an insert of a key beyond its last key:
  the key goes to index 5 of what are then 6 entries, \<open>min(32, 6/16) = 0\<close>, the insertion
  point is one entry from the right edge and so outside the claim's window, yet the streak
  is extended from 1 to 2.
\<close>

theorem C8_small_basement_counterexample:
  "brt_leaf_put_cmd_insert ext_simple bn_five zero_estimates (insert_key [6] 1)
     = Some (bn_six, \<lparr>nkeys = 1, ndata = 1, dsize = 1, exact = True\<rparr>, True) \<and>
   insert_location ext_simple bn_five (insert_key [6] 1) = (DB_NOTFOUND, None, 5) \<and>
   bn_seqinsert bn_five = 1 \<and> bn_seqinsert bn_six = 2 \<and> length (bn_buffer bn_six) = 6 \<and>
   \<not> (length (bn_buffer bn_six) - 5 \<le> min 32 (length (bn_buffer bn_six) div 16))"
  by code_simp

text \<open>
  C8, amended: when an INSERT (or INSERT_NO_OVERWRITE) is applied to a basement, the streak
  counter becomes its old value plus one exactly when the insertion position is within a
  window of \<open>max(1, min(32, size/16))\<close> entries of the right edge of the basement (size being
  the number of leaf entries after the insertion); otherwise the streak counter is reset
  to zero.
\<close>

theorem C8_seqinsert_window:
  assumes "brt_leaf_put_cmd_insert t bn se cmd = Some (bn', se', made_change)"
    and "insert_location t bn cmd = (r, storeddata, idx)"
  shows "bn_seqinsert bn' =
     (if length (bn_buffer bn') - idx \<le> max 1 (min 32 (length (bn_buffer bn') div 16))
      then bn_seqinsert bn + 1 else 0)"
proof -
  from assms obtain bn1 se1 sd where
    ap: "brt_leaf_apply_cmd_once t (bn\<lparr>bn_seqinsert := 0\<rparr>) se cmd idx sd = Some (bn1, se1)"
    and res: "bn' = (if length (bn_buffer bn1) - idx \<le> seqinsert_window (length (bn_buffer bn1))
                    then bn1\<lparr>bn_seqinsert := bn_seqinsert bn + 1\<rparr> else bn1)"
    by (auto simp: brt_leaf_put_cmd_insert_def Let_def split: Option.bind_splits if_splits)
  from brt_leaf_apply_cmd_once_seqinsert [OF ap] have "bn_seqinsert bn1 = 0" by simp
  with res show ?thesis
    by (auto simp: seqinsert_window_eq)
qed

theorem C8_seqinsert_window_witness:
  "bn_seqinsert bn_six = bn_seqinsert bn_five + 1"
proof -
  have h1: "brt_leaf_put_cmd_insert ext_simple bn_five zero_estimates (insert_key [6] 1)
     = Some (bn_six, \<lparr>nkeys = 1, ndata = 1, dsize = 1, exact = True\<rparr>, True)"
    by code_simp
  have h2: "insert_location ext_simple bn_five (insert_key [6] 1) = (DB_NOTFOUND, None, 5)"
    by code_simp
  have h3: "length (bn_buffer bn_six) = 6" by code_simp
  from C8_seqinsert_window [OF h1 h2] show ?thesis
    by (simp add: h3)
qed

section \<open>Merge or rebalance of two leaves\<close>

lemma unat_sum_times4:
  "unat (x :: u32) + unat (y :: u32) < 2 ^ 30 \<Longrightarrow> unat ((x + y) * 4) = 4 * (unat x + unat y)"
  by (simp add: unat_word_ariths)

lemma unat_times3:
  "3 * unat (x :: u32) < 2 ^ 32 \<Longrightarrow> unat (x * 3) = 3 * unat x"
  by (simp add: unat_word_ariths mult.commute)

lemma merge_decision:
  assumes "unat (sa :: u32) + unat (sb :: u32) < 2 ^ 30" and "3 * unat (n :: u32) < 2 ^ 32"
  shows "(sa + sb) * 4 > n * 3 \<longleftrightarrow> 4 * (unat sa + unat sb) > 3 * unat n"
    and "sa * 4 > n \<longleftrightarrow> unat sa > unat n div 4"
    and "sb * 4 > n \<longleftrightarrow> unat sb > unat n div 4"
    and "sa * 4 + sb * 4 > n * 3 \<longleftrightarrow> 4 * (unat sa + unat sb) > 3 * unat n"
proof -
  have a: "unat sa < 2 ^ 30" and b: "unat sb < 2 ^ 30" using assms(1) by simp_all
  show "(sa + sb) * 4 > n * 3 \<longleftrightarrow> 4 * (unat sa + unat sb) > 3 * unat n"
    by (simp only: word_less_nat_alt unat_sum_times4 [OF assms(1)] unat_times3 [OF assms(2)])
  then show "sa * 4 + sb * 4 > n * 3 \<longleftrightarrow> 4 * (unat sa + unat sb) > 3 * unat n"
    by (simp only: distrib_right)
  show "sa * 4 > n \<longleftrightarrow> unat sa > unat n div 4"
    using unat_times4 [OF a] by (simp add: word_less_nat_alt) arith
  show "sb * 4 > n \<longleftrightarrow> unat sb > unat n div 4"
    using unat_times4 [OF b] by (simp add: word_less_nat_alt) arith
qed

lemma sum_child_estimates_leaf:
  "\<exists>e. sum_child_estimates 0 ps est = Some e"
  by (induction ps arbitrary: est) (simp_all add: Let_def)

lemma fixup_child_estimates_leaf:
  assumes "height child = 0" and "0 \<le> i" and "i < n_children node"
  shows "\<exists>node'. fixup_child_estimates node i child d = Some node' \<and>
           n_children node' = n_children node"
proof -
  obtain e where "sum_child_estimates 0 (bp child) (zero_estimates\<lparr>exact := True\<rparr>) = Some e"
    using sum_child_estimates_leaf by blast
  with assms show ?thesis
    by (simp add: fixup_child_estimates_def BP_def n_children_def Let_def)
qed

lemma fixup_both_leaf:
  assumes "height a = 0" and "height b = 0" and "0 \<le> i" and "i + 1 < n_children node"
  shows "\<exists>node'. fixup_both node i a b = Some node'"
proof -
  from assms obtain n1 where 1: "fixup_child_estimates node i a True = Some n1"
      and 2: "n_children n1 = n_children node"
    using fixup_child_estimates_leaf [of a i node True] by auto
  from assms 2 obtain n2 where "fixup_child_estimates n1 (i + 1) b True = Some n2"
    using fixup_child_estimates_leaf [of b "i + 1" n1 True] by auto
  with 1 show ?thesis by (simp add: fixup_both_def)
qed

lemma last_is_basement:
  assumes "leaf_in_memory a"
  shows "\<exists>bn. BLB a (n_children a - 1) = Some bn"
proof -
  from assms have ne: "bp a \<noteq> []"
    and all: "list_all (\<lambda>p. bp_state p = PT_AVAIL \<and>
                (case bp_ptr p of Basement bn \<Rightarrow> True | _ \<Rightarrow> False)) (bp a)"
    by (simp_all add: leaf_in_memory_def)
  from ne have "last (bp a) \<in> set (bp a)" by simp
  with all have "case bp_ptr (last (bp a)) of Basement bn \<Rightarrow> True | _ \<Rightarrow> False"
    by (auto simp: list_all_iff)
  moreover from ne have "bp a ! (length (bp a) - 1) = last (bp a)"
    by (simp add: last_conv_nth)
  moreover from ne have "nat (int (length (bp a)) - 1) = length (bp a) - 1" by simp
  ultimately show ?thesis using ne
    by (auto simp: BLB_def BP_def n_children_def split: child_ptr.splits)
qed

lemma merge_leaf_nodes_result:
  assumes "leaf_in_memory a" and "leaf_in_memory b"
  shows "\<exists>last_bn. BLB a (n_children a - 1) = Some last_bn \<and>
           merge_leaf_nodes a b =
             Some (a\<lparr>bp := (if toku_omt_size (bn_buffer last_bn) \<noteq> 0 then bp a
                            else butlast (bp a)) @ bp b,
                     childkeys := childkeys a
                        @ (if toku_omt_size (bn_buffer last_bn) \<noteq> 0
                           then [le_key (last (bn_buffer last_bn))] else [])
                        @ childkeys b,
                     totalchildkeylens := totalchildkeylens a
                        + (if toku_omt_size (bn_buffer last_bn) \<noteq> 0
                           then le_keylen (last (bn_buffer last_bn)) else 0)
                        + totalchildkeylens b,
                     dirty := True\<rparr>,
                   b\<lparr>bp := [], childkeys := [], totalchildkeylens := 0, dirty := True\<rparr>)"
proof -
  obtain bn where bn: "BLB a (n_children a - 1) = Some bn"
    using last_is_basement [OF assms(1)] by blast
  have mem: "toku_assert_entire_node_in_memory a = Some ()"
       "toku_assert_entire_node_in_memory b = Some ()"
    using assms by (auto simp: leaf_in_memory_def toku_assert_entire_node_in_memory_def
        assert_def list_all_iff)
  have basics: "height a = 0" "height b = 0" "n_children a > 0" "n_children b > 0"
      "length (childkeys a) = length (bp a) - 1" "length (childkeys b) = length (bp b) - 1"
    using assms by (auto simp: leaf_in_memory_def n_children_def)
  show ?thesis
  proof (cases "toku_omt_size (bn_buffer bn) = 0")
    case True
    then show ?thesis using bn mem basics
      by (simp add: merge_leaf_nodes_def assert_def Let_def)
  next
    case False
    then have "bn_buffer bn \<noteq> []" by (auto simp: toku_omt_size_def)
    then have "toku_omt_fetch (bn_buffer bn) (length (bn_buffer bn) - 1)
               = Some (last (bn_buffer bn))"
      by (simp add: toku_omt_fetch_def last_conv_nth)
    with False show ?thesis using bn mem basics
      by (simp add: merge_leaf_nodes_def assert_def Let_def)
  qed
qed

text \<open>
  Where the 32-bit products do not wrap (\<open>size_a + size_b < 2^30\<close> and
  \<open>3 * nodesize < 2^32\<close>), \<^verbatim>\<open>maybe_merge_pinned_leaf_nodes\<close> decides by the sizes themselves:
  above three quarters of a node nothing is merged, and nothing changes at all when both sizes
  exceed a quarter; otherwise exactly one of them is at most a quarter and the nodes are
  rebalanced by \<open>balance_leaf_nodes\<close>; at or below three quarters they are merged.
\<close>

lemma maybe_merge_pinned_leaf_nodes_without_wrap:
  assumes "unat (ssize a) + unat (ssize b) < 2 ^ 30" and "3 * unat (nodesize a) < 2 ^ 32"
  shows "4 * (unat (ssize a) + unat (ssize b)) > 3 * unat (nodesize a) \<Longrightarrow>
         unat (ssize a) > unat (nodesize a) div 4 \<Longrightarrow> unat (ssize b) > unat (nodesize a) div 4 \<Longrightarrow>
         maybe_merge_pinned_leaf_nodes ssize t sx parent i a b k
         = Some \<lparr>did_merge = False, did_rebalance = False, splitk = Some k,
                 out_parent = parent, out_a = a, out_b = b\<rparr>"
    and "4 * (unat (ssize a) + unat (ssize b)) > 3 * unat (nodesize a) \<Longrightarrow>
         \<not> (unat (ssize a) > unat (nodesize a) div 4 \<and> unat (ssize b) > unat (nodesize a) div 4) \<Longrightarrow>
         (unat (ssize a) \<le> unat (nodesize a) div 4) \<noteq> (unat (ssize b) \<le> unat (nodesize a) div 4)
         \<and> maybe_merge_pinned_leaf_nodes ssize t sx parent i a b k
           = do {
               (a', b', k') \<leftarrow> balance_leaf_nodes t sx a b;
               parent' \<leftarrow> fixup_both parent i a' b';
               Some \<lparr>did_merge = False, did_rebalance = True, splitk = Some k',
                     out_parent = parent', out_a = a', out_b = b'\<rparr>
             }"
    and "\<not> 4 * (unat (ssize a) + unat (ssize b)) > 3 * unat (nodesize a) \<Longrightarrow>
         maybe_merge_pinned_leaf_nodes ssize t sx parent i a b k
           = do {
               (a', b') \<leftarrow> merge_leaf_nodes a b;
               parent' \<leftarrow> fixup_both parent i a' b';
               Some \<lparr>did_merge = True, did_rebalance = False, splitk = None,
                     out_parent = parent', out_a = a', out_b = b'\<rparr>
             }"
proof -
  note dec = merge_decision [OF assms]
  show "4 * (unat (ssize a) + unat (ssize b)) > 3 * unat (nodesize a) \<Longrightarrow>
         unat (ssize a) > unat (nodesize a) div 4 \<Longrightarrow> unat (ssize b) > unat (nodesize a) div 4 \<Longrightarrow>
         maybe_merge_pinned_leaf_nodes ssize t sx parent i a b k
         = Some \<lparr>did_merge = False, did_rebalance = False, splitk = Some k,
                 out_parent = parent, out_a = a, out_b = b\<rparr>"
    by (simp add: maybe_merge_pinned_leaf_nodes_def Let_def dec)
  show "4 * (unat (ssize a) + unat (ssize b)) > 3 * unat (nodesize a) \<Longrightarrow>
         \<not> (unat (ssize a) > unat (nodesize a) div 4 \<and> unat (ssize b) > unat (nodesize a) div 4) \<Longrightarrow>
         (unat (ssize a) \<le> unat (nodesize a) div 4) \<noteq> (unat (ssize b) \<le> unat (nodesize a) div 4)
         \<and> maybe_merge_pinned_leaf_nodes ssize t sx parent i a b k
           = do {
               (a', b', k') \<leftarrow> balance_leaf_nodes t sx a b;
               parent' \<leftarrow> fixup_both parent i a' b';
               Some \<lparr>did_merge = False, did_rebalance = True, splitk = Some k',
                     out_parent = parent', out_a = a', out_b = b'\<rparr>
             }"
  proof (intro conjI)
    assume h: "4 * (unat (ssize a) + unat (ssize b)) > 3 * unat (nodesize a)"
      "\<not> (unat (ssize a) > unat (nodesize a) div 4 \<and> unat (ssize b) > unat (nodesize a) div 4)"
    then show "(unat (ssize a) \<le> unat (nodesize a) div 4)
               \<noteq> (unat (ssize b) \<le> unat (nodesize a) div 4)"
      by arith
    from h show "maybe_merge_pinned_leaf_nodes ssize t sx parent i a b k
           = do {
               (a', b', k') \<leftarrow> balance_leaf_nodes t sx a b;
               parent' \<leftarrow> fixup_both parent i a' b';
               Some \<lparr>did_merge = False, did_rebalance = True, splitk = Some k',
                     out_parent = parent', out_a = a', out_b = b'\<rparr>
             }"
      by (auto simp add: maybe_merge_pinned_leaf_nodes_def Let_def dec)
  qed
  show "\<not> 4 * (unat (ssize a) + unat (ssize b)) > 3 * unat (nodesize a) \<Longrightarrow>
         maybe_merge_pinned_leaf_nodes ssize t sx parent i a b k
           = do {
               (a', b') \<leftarrow> merge_leaf_nodes a b;
               parent' \<leftarrow> fixup_both parent i a' b';
               Some \<lparr>did_merge = True, did_rebalance = False, splitk = None,
                     out_parent = parent', out_a = a', out_b = b'\<rparr>
             }"
    by (simp add: maybe_merge_pinned_leaf_nodes_def Let_def dec)
qed

text \<open>
  C5: two adjacent pinned leaf siblings are merged into the left one if and only if
  \<open>4 * (size_a + size_b) \<le> 3 * nodesize\<close>.  The code compares the \<^verbatim>\<open>unsigned int\<close> products
  \<^verbatim>\<open>(sizea + sizeb)*4\<close> and \<^verbatim>\<open>a->nodesize*3\<close>.  With the node size \<open>1431655766\<close>, which
  \<^verbatim>\<open>toku_brt_set_nodesize\<close> accepts, \<^verbatim>\<open>a->nodesize*3\<close> wraps around to \<open>2\<close>: for a left leaf of
  two entries (size \<open>48\<close>) and a right leaf of one entry (size \<open>32\<close>), which together fill a tiny
  part of three quarters of a node, the code takes the branch that its comment describes as
  ``the combined size is more than 3/4 of a node, so don't merge them'', and rebalances: the
  merged node is split again after its first entry, whose key \<open>[1]\<close> is the new pivot.
\<close>

theorem C5_wrapped_node_size_is_not_merged:
  "map_option (\<lambda>out. (did_merge out, did_rebalance out, splitk out,
                      map (map le_key) (leaf_entries (out_a out)),
                      map (map le_key) (leaf_entries (out_b out))))
     (maybe_merge_pinned_leaf_nodes size_per_entry ext_simple sx_simple wide_parent 0
        (named_leaf 2 1431655766 [le_of_key [1], le_of_key [2]])
        (named_leaf 3 1431655766 [le_of_key [3]]) [2])
     = Some (False, True, Some [1], [[[1]]], [[[2]], [[3]]]) \<and>
   size_per_entry (named_leaf 2 1431655766 [le_of_key [1], le_of_key [2]]) = 48 \<and>
   size_per_entry (named_leaf 3 1431655766 [le_of_key [3]]) = 32 \<and>
   nodesize (named_leaf 2 1431655766 [le_of_key [1], le_of_key [2]]) = 1431655766 \<and>
   4 * (48 + 32) \<le> 3 * (1431655766 :: nat)"
proof (intro conjI)
  show "map_option (\<lambda>out. (did_merge out, did_rebalance out, splitk out,
                      map (map le_key) (leaf_entries (out_a out)),
                      map (map le_key) (leaf_entries (out_b out))))
     (maybe_merge_pinned_leaf_nodes size_per_entry ext_simple sx_simple wide_parent 0
        (named_leaf 2 1431655766 [le_of_key [1], le_of_key [2]])
        (named_leaf 3 1431655766 [le_of_key [3]]) [2])
     = Some (False, True, Some [1], [[[1]]], [[[2]], [[3]]])"
    by code_simp
  show "size_per_entry (named_leaf 2 1431655766 [le_of_key [1], le_of_key [2]]) = 48"
    by code_simp
  show "size_per_entry (named_leaf 3 1431655766 [le_of_key [3]]) = 32"
    by code_simp
  show "nodesize (named_leaf 2 1431655766 [le_of_key [1], le_of_key [2]]) = 1431655766"
    by (simp add: named_leaf_def leaf_of_def)
  show "4 * (48 + 32) \<le> 3 * (1431655766 :: nat)"
    by simp
qed

section \<open>Messages that were already applied\<close>

lemma fifo_iterate_apply_append:
  "fifo_iterate_apply put t mn bounds (xs @ ys) bn se =
     (case fifo_iterate_apply put t mn bounds xs bn se of
        None \<Rightarrow> None
      | Some (bn', se') \<Rightarrow> fifo_iterate_apply put t mn bounds ys bn' se')"
proof (induction xs arbitrary: bn se)
  case Nil
  show ?case by simp
next
  case (Cons x xs)
  show ?case
    by (cases "put bn se x") (auto simp: Cons.IH)
qed

lemma fifo_iterate_apply_all_seen:
  "\<forall>m \<in> set fifo. msg_msn m \<le> mn \<Longrightarrow>
   fifo_iterate_apply put t mn bounds fifo bn se = Some (bn, se)"
  by (induction fifo) (auto simp: not_less [symmetric])

text \<open>
  C2: a message of an ancestor's buffer whose msn is at most the bound passed to the replay
  (the leaf's \<^verbatim>\<open>max_msn_applied_to_node_on_disk\<close>) is skipped: the replay of the buffer gives
  the same basement and estimates with or without it, and a buffer holding only such
  messages leaves the basement (entries, byte count) and its estimates as they were.
  \<^verbatim>\<open>toku_apply_cmd_to_leaf\<close> returns the node unchanged for a message whose msn is at most the
  node's \<^verbatim>\<open>max_msn_applied_to_node_in_memory\<close>.
\<close>

theorem C2_seen_messages_are_dropped:
  "(msg_msn m \<le> mn \<longrightarrow>
      fifo_iterate_apply put t mn bounds (older @ m # newer) bn se
      = fifo_iterate_apply put t mn bounds (older @ newer) bn se)
   \<and>
   (height ancestor = h \<and> h > 0 \<and> BP ancestor childnum = Some p \<and> bp_state p = PT_AVAIL \<and>
    bp_ptr p = Childinfo c \<and> (\<forall>m \<in> set (bnc_buffer c). msg_msn m \<le> mn)
    \<longrightarrow> apply_buffer_messages_to_node put t bn se ancestor childnum h mn bounds = Some (bn, se))
   \<and>
   (msg_msn cmd \<le> max_msn_applied_to_node_in_memory node
    \<longrightarrow> toku_apply_cmd_to_leaf put t node cmd made_change = Some (node, made_change))"
proof (intro conjI impI)
  assume "msg_msn m \<le> mn"
  then have "fifo_iterate_apply put t mn bounds (m # newer) bn' se'
             = fifo_iterate_apply put t mn bounds newer bn' se'" for bn' se'
    by (simp add: not_less [symmetric])
  then show "fifo_iterate_apply put t mn bounds (older @ m # newer) bn se
      = fifo_iterate_apply put t mn bounds (older @ newer) bn se"
    by (simp add: fifo_iterate_apply_append [of put t mn bounds older] split: option.splits)
next
  assume a: "height ancestor = h \<and> h > 0 \<and> BP ancestor childnum = Some p \<and>
    bp_state p = PT_AVAIL \<and> bp_ptr p = Childinfo c \<and>
    (\<forall>m \<in> set (bnc_buffer c). msg_msn m \<le> mn)"
  then have "0 \<le> childnum \<and> childnum < n_children ancestor"
    by (auto simp: BP_def split: if_splits)
  with a show "apply_buffer_messages_to_node put t bn se ancestor childnum h mn bounds
               = Some (bn, se)"
    by (simp add: apply_buffer_messages_to_node_def assert_def BNC_def
        fifo_iterate_apply_all_seen)
next
  assume "msg_msn cmd \<le> max_msn_applied_to_node_in_memory node"
  then show "toku_apply_cmd_to_leaf put t node cmd made_change = Some (node, made_change)"
    by (simp add: toku_apply_cmd_to_leaf_def)
qed

theorem C2_seen_messages_are_dropped_witness:
  "fifo_iterate_apply put_simple ext_simple 3 infinite_bounds
       ([] @ insert_key [2] 2 # [insert_key [5] 7]) bn_five zero_estimates
     = fifo_iterate_apply put_simple ext_simple 3 infinite_bounds
       ([] @ [insert_key [5] 7]) bn_five zero_estimates \<and>
   apply_buffer_messages_to_node put_simple ext_simple bn_five zero_estimates
       (parent_with_buffer [insert_key [2] 2] 2) 0 1 3 infinite_bounds
     = Some (bn_five, zero_estimates) \<and>
   toku_apply_cmd_to_leaf put_simple ext_simple stale_leaf (insert_key [2] 2) False
     = Some (stale_leaf, False)"
proof -
  let ?anc = "parent_with_buffer [insert_key [2] 2] 2"
  let ?p = "(partition_of (Childinfo \<lparr>bnc_buffer = [insert_key [2] 2],
                                      bnc_n_bytes_in_buffer = 0\<rparr>))\<lparr>bp_blocknum := 2\<rparr>"
  have h1: "msg_msn (insert_key [2] 2) \<le> (3 :: MSN)"
    by (simp add: insert_key_def)
  have h2: "height ?anc = 1 \<and> (1::int) > 0 \<and> BP ?anc 0 = Some ?p \<and> bp_state ?p = PT_AVAIL \<and>
      bp_ptr ?p = Childinfo \<lparr>bnc_buffer = [insert_key [2] 2], bnc_n_bytes_in_buffer = 0\<rparr> \<and>
      (\<forall>m \<in> set (bnc_buffer \<lparr>bnc_buffer = [insert_key [2] 2], bnc_n_bytes_in_buffer = 0\<rparr>).
          msg_msn m \<le> (3 :: MSN))"
    by (simp add: parent_with_buffer_def BP_def n_children_def partition_of_def insert_key_def)
  have h3: "msg_msn (insert_key [2] 2) \<le> max_msn_applied_to_node_in_memory stale_leaf"
    by (simp add: insert_key_def stale_leaf_def leaf_of_def)
  from C2_seen_messages_are_dropped [where m = "insert_key [2] 2" and mn = 3
      and put = put_simple and t = ext_simple and bounds = infinite_bounds and older = "[]"
      and newer = "[insert_key [5] 7]" and bn = bn_five and se = zero_estimates
      and ancestor = ?anc and h = 1 and childnum = 0 and p = ?p
      and c = "\<lparr>bnc_buffer = [insert_key [2] 2], bnc_n_bytes_in_buffer = 0\<rparr>"
      and cmd = "insert_key [2] 2" and node = stale_leaf and made_change = False]
    h1 h2 h3
  show ?thesis by blast
qed

section \<open>Ancestor replay and the dirty flag\<close>

lemma fixup_child_estimates_clean:
  "fixup_child_estimates node i child False = Some node' \<Longrightarrow> dirty node' = dirty node"
  by (auto simp: fixup_child_estimates_def Let_def split: Option.bind_splits)

lemma fixup_ancestors_dirty:
  "fixup_ancestors prev ancs = Some ancs' \<Longrightarrow>
   map (dirty \<circ> fst) ancs' = map (dirty \<circ> fst) ancs"
proof (induction ancs arbitrary: prev ancs')
  case Nil
  then show ?case by simp
next
  case (Cons a ancs)
  obtain n c where a: "a = (n, c)" by (cases a)
  from Cons.prems obtain n' rest where
    f: "fixup_child_estimates n c prev False = Some n'"
    and r: "fixup_ancestors n' ancs = Some rest" and e: "ancs' = (n', c) # rest"
    by (auto simp: a split: Option.bind_splits)
  from Cons.IH [OF r] fixup_child_estimates_clean [OF f] e a show ?case by simp
qed

lemma replay_basements_dirty:
  "replay_basements put t ancs bounds k i node u = Some (node', u') \<Longrightarrow>
   dirty node' = dirty node \<and> height node' = height node"
proof (induction k arbitrary: i node u)
  case 0
  then show ?case by simp
next
  case (Suc k)
  from Suc.prems show ?case
    by (auto simp: Let_def split: Option.bind_splits if_splits dest!: Suc.IH)
qed

lemma reset_calc_leaf_stats_dirty:
  "toku_brt_leaf_reset_calc_leaf_stats node = Some node' \<Longrightarrow> dirty node' = dirty node"
  by (auto simp: toku_brt_leaf_reset_calc_leaf_stats_def split: Option.bind_splits)

text \<open>
  C7: \<^verbatim>\<open>maybe_apply_ancestors_messages_to_node\<close> never writes the dirty flag: whenever it
  returns, the dirty field of the node is what it was before the call, for every node, list
  of ancestors and pivot bounds (and whatever \<^verbatim>\<open>brt_leaf_put_cmd\<close> does to the basements).
  The dirty fields of the ancestors, whose estimates are refreshed, do not change either.
\<close>

theorem C7_replay_keeps_dirty:
  assumes "maybe_apply_ancestors_messages_to_node put t node ancs bounds = Some (node', ancs')"
  shows "dirty node' = dirty node \<and> map (dirty \<circ> fst) ancs' = map (dirty \<circ> fst) ancs"
proof (cases "height node > 0")
  case True
  with assms show ?thesis
    by (simp add: maybe_apply_ancestors_messages_to_node_def)
next
  case False
  with assms obtain n1 u where
    r: "replay_basements put t ancs bounds (length (bp node)) 0 node False = Some (n1, u)"
    and rest: "(if u then do {
                  n2 \<leftarrow> toku_brt_leaf_reset_calc_leaf_stats n1;
                  a2 \<leftarrow> fixup_ancestors n2 ancs;
                  Some (n2, a2)
                } else Some (n1, ancs)) = Some (node', ancs')"
    by (auto simp: maybe_apply_ancestors_messages_to_node_def split: Option.bind_splits)
  from replay_basements_dirty [OF r] have d1: "dirty n1 = dirty node" by simp
  show ?thesis
  proof (cases u)
    case True
    with rest obtain n2 where s: "toku_brt_leaf_reset_calc_leaf_stats n1 = Some n2"
      and f: "fixup_ancestors n2 ancs = Some ancs'" and e: "node' = n2"
      by (auto split: Option.bind_splits)
    from reset_calc_leaf_stats_dirty [OF s] fixup_ancestors_dirty [OF f] d1 e
    show ?thesis by simp
  next
    case False
    with rest d1 show ?thesis by simp
  qed
qed

theorem C7_replay_keeps_dirty_witness:
  "map_option (dirty \<circ> fst)
     (maybe_apply_ancestors_messages_to_node put_simple ext_simple stale_leaf
        [(parent_with_buffer [insert_key [2] 2, insert_key [5] 7] 7, 0)] infinite_bounds)
     = Some (dirty stale_leaf) \<and>
   map_option (max_msn_applied_to_node_in_memory \<circ> fst)
     (maybe_apply_ancestors_messages_to_node put_simple ext_simple stale_leaf
        [(parent_with_buffer [insert_key [2] 2, insert_key [5] 7] 7, 0)] infinite_bounds)
     = Some 7"
proof -
  let ?r = "maybe_apply_ancestors_messages_to_node put_simple ext_simple stale_leaf
        [(parent_with_buffer [insert_key [2] 2, insert_key [5] 7] 7, 0)] infinite_bounds"
  have run: "map_option (max_msn_applied_to_node_in_memory \<circ> fst) ?r = Some 7"
    by code_simp
  then obtain node' ancs' where s: "?r = Some (node', ancs')"
    by (cases ?r) auto
  from C7_replay_keeps_dirty [OF s] have "dirty node' = dirty stale_leaf" by simp
  with s run show ?thesis by simp
qed

section \<open>The msn of a message put into a nonleaf node\<close>

lemma pivot_bisect_in_range:
  "lo \<le> hi \<Longrightarrow> hi \<le> length (childkeys node) \<Longrightarrow>
   \<exists>r. pivot_bisect t node k lo hi = Some r \<and> lo \<le> r \<and> r \<le> hi"
proof (induction t node k lo hi rule: pivot_bisect.induct)
  case (1 t node k lo hi)
  show ?case
  proof (cases "lo < hi")
    case False
    with "1.prems" show ?thesis by (subst pivot_bisect.simps) auto
  next
    case True
    let ?mi = "(lo + hi) div 2"
    from True "1.prems" have mi: "lo \<le> ?mi" "?mi < hi" "?mi < length (childkeys node)"
      by auto
    then have ck: "childkey node ?mi = Some (childkeys node ! ?mi)"
      by (simp add: childkey_def)
    consider (gt) "brt_compare_pivot t k (childkeys node ! ?mi) > 0"
      | (lt) "\<not> brt_compare_pivot t k (childkeys node ! ?mi) > 0"
             "brt_compare_pivot t k (childkeys node ! ?mi) < 0"
      | (eq) "\<not> brt_compare_pivot t k (childkeys node ! ?mi) > 0"
             "\<not> brt_compare_pivot t k (childkeys node ! ?mi) < 0"
      by blast
    then show ?thesis
    proof cases
      case gt
      from "1.IH"(1) [OF True refl ck refl gt] mi "1.prems"
      obtain r where "pivot_bisect t node k (?mi + 1) hi = Some r" "?mi + 1 \<le> r" "r \<le> hi"
        by auto
      with True ck gt mi show ?thesis
        by (simp add: pivot_bisect.simps [of t node k lo hi] Let_def)
    next
      case lt
      from "1.IH"(2) [OF True refl ck refl lt] mi "1.prems"
      obtain r where "pivot_bisect t node k lo ?mi = Some r" "lo \<le> r" "r \<le> ?mi"
        by auto
      with True ck lt mi show ?thesis
        by (simp add: pivot_bisect.simps [of t node k lo hi] Let_def)
    next
      case eq
      with True ck mi show ?thesis
        by (simp add: pivot_bisect.simps [of t node k lo hi] Let_def)
    qed
  qed
qed

lemma which_child_in_range:
  assumes "bp node \<noteq> []" and "length (childkeys node) = length (bp node) - 1"
  shows "\<exists>i. toku_brtnode_which_child t node k = Some i \<and> 0 \<le> i \<and> i < n_children node"
proof (cases "n_children node \<le> 1")
  case True
  with assms show ?thesis
    by (simp add: toku_brtnode_which_child_def n_children_def)
next
  case False
  then have n: "length (bp node) \<ge> 2" by (simp add: n_children_def)
  let ?n = "length (bp node) - 1"
  from n assms have ck: "childkey node (?n - 1) = Some (childkeys node ! (?n - 1))"
    by (simp add: childkey_def)
  from n assms have le: "?n - 1 \<le> length (childkeys node)" by simp
  have "\<exists>r. pivot_bisect t node k 0 (?n - 1) = Some r \<and> 0 \<le> r \<and> r \<le> ?n - 1"
    by (rule pivot_bisect_in_range [OF _ le]) simp
  then obtain r where
    r: "pivot_bisect t node k 0 (?n - 1) = Some r" "r \<le> ?n - 1"
    by blast
  show ?thesis
  proof (cases "brt_compare_pivot t k (childkeys node ! (?n - 1)) > 0")
    case True
    with False ck n assms(1) show ?thesis
      by (auto simp add: toku_brtnode_which_child_def n_children_def Let_def)
  next
    case c: False
    with False ck n r assms(1) show ?thesis
      by (auto simp add: toku_brtnode_which_child_def n_children_def Let_def)
  qed
qed

lemma append_to_child_buffer_ok:
  assumes "nonleaf_in_memory node" and "0 \<le> i" and "i < n_children node"
  shows "\<exists>node'. toku_brt_append_to_child_buffer x node i cmd = Some node' \<and>
           nonleaf_in_memory node' \<and> n_children node' = n_children node \<and>
           max_msn_applied_to_node_in_memory node' = max_msn_applied_to_node_in_memory node"
proof -
  from assms have i: "nat i < length (bp node)" by (simp add: n_children_def)
  from assms(1) have all: "list_all (\<lambda>p. bp_state p = PT_AVAIL \<and>
      (case bp_ptr p of Childinfo c \<Rightarrow> True | _ \<Rightarrow> False)) (bp node)"
    by (simp add: nonleaf_in_memory_def)
  with i have pi: "bp_state (bp node ! nat i) = PT_AVAIL"
    "case bp_ptr (bp node ! nat i) of Childinfo c \<Rightarrow> True | _ \<Rightarrow> False"
    by (simp_all add: list_all_length)
  then obtain c where c: "bp_ptr (bp node ! nat i) = Childinfo c"
    by (cases "bp_ptr (bp node ! nat i)") auto
  have keep: "list_all (\<lambda>p. bp_state p = PT_AVAIL \<and>
      (case bp_ptr p of Childinfo c \<Rightarrow> True | _ \<Rightarrow> False)) ((bp node)[nat i := q])"
    if "bp_state q = PT_AVAIL" "case bp_ptr q of Childinfo c \<Rightarrow> True | _ \<Rightarrow> False" for q
    using all that by (auto simp: list_all_iff dest!: set_update_subset_insert [THEN subsetD])
  from assms i pi c keep show ?thesis
    by (simp add: toku_brt_append_to_child_buffer_def BP_def BNC_def assert_def Let_def
        nonleaf_in_memory_def n_children_def)
qed

lemma cmd_all_loop_ok:
  "nonleaf_in_memory node \<Longrightarrow> 0 \<le> i \<Longrightarrow> i + int k \<le> n_children node \<Longrightarrow>
   \<exists>node'. cmd_all_loop x cmd k i node = Some node' \<and> nonleaf_in_memory node' \<and>
     n_children node' = n_children node \<and>
     max_msn_applied_to_node_in_memory node' = max_msn_applied_to_node_in_memory node"
proof (induction k arbitrary: i node)
  case 0
  then show ?case by simp
next
  case (Suc k)
  from Suc.prems obtain n1 where
    a: "toku_brt_append_to_child_buffer x node i cmd = Some n1" "nonleaf_in_memory n1"
       "n_children n1 = n_children node"
       "max_msn_applied_to_node_in_memory n1 = max_msn_applied_to_node_in_memory node"
    using append_to_child_buffer_ok [of node i x cmd] by auto
  from Suc.IH [of n1 "i + 1"] a Suc.prems obtain n2 where
    "cmd_all_loop x cmd k (i + 1) n1 = Some n2" "nonleaf_in_memory n2"
    "n_children n2 = n_children n1"
    "max_msn_applied_to_node_in_memory n2 = max_msn_applied_to_node_in_memory n1"
    by auto
  with a show ?case by (simp add: brt_nonleaf_cmd_once_to_child_def)
qed

lemma brt_nonleaf_put_cmd_ok:
  assumes "nonleaf_in_memory node" and "msg_msn cmd > max_msn_applied_to_node_in_memory node"
  shows "\<exists>node'. brt_nonleaf_put_cmd t x node cmd = Some node' \<and> nonleaf_in_memory node' \<and>
           max_msn_applied_to_node_in_memory node' = msg_msn cmd"
proof -
  let ?n = "node\<lparr>max_msn_applied_to_node_in_memory := msg_msn cmd\<rparr>"
  have ok: "nonleaf_in_memory ?n" using assms(1) by (simp add: nonleaf_in_memory_def)
  then have shape: "bp ?n \<noteq> []" "length (childkeys ?n) = length (bp ?n) - 1"
    by (simp_all add: nonleaf_in_memory_def)
  obtain i where i: "toku_brtnode_which_child t ?n (msg_key cmd) = Some i" "0 \<le> i"
      "i < n_children ?n"
    using which_child_in_range [OF shape] by blast
  from append_to_child_buffer_ok [OF ok i(2,3), of x cmd] i(1)
  have once: "\<exists>node'. brt_nonleaf_cmd_once t x ?n cmd = Some node' \<and> nonleaf_in_memory node' \<and>
           max_msn_applied_to_node_in_memory node' = msg_msn cmd"
    by (auto simp add: brt_nonleaf_cmd_once_def brt_nonleaf_cmd_once_to_child_def)
  from cmd_all_loop_ok [OF ok, of 0 "length (bp ?n)" x cmd]
  have all: "\<exists>node'. brt_nonleaf_cmd_all x ?n cmd = Some node' \<and> nonleaf_in_memory node' \<and>
           max_msn_applied_to_node_in_memory node' = msg_msn cmd"
    by (auto simp add: brt_nonleaf_cmd_all_def n_children_def)
  from ok have none: "\<exists>node'. Some ?n = Some node' \<and> nonleaf_in_memory node' \<and>
           max_msn_applied_to_node_in_memory node' = msg_msn cmd"
    by simp
  show ?thesis
    using assms(2) once all none
    by (cases "msg_type cmd") (simp_all add: brt_nonleaf_put_cmd_def assert_def Let_def)
qed

lemma brt_nonleaf_put_cmd_msn:
  "brt_nonleaf_put_cmd t x node cmd = Some node' \<Longrightarrow>
   msg_msn cmd > max_msn_applied_to_node_in_memory node"
  by (auto simp: brt_nonleaf_put_cmd_def assert_def Let_def split: if_splits)

lemma nonleaf_node_in_memory:
  "nonleaf_in_memory node \<Longrightarrow> toku_assert_entire_node_in_memory node = Some () \<and> height node > 0"
  by (auto simp: nonleaf_in_memory_def toku_assert_entire_node_in_memory_def assert_def
      list_all_iff)

lemma drain_to_nonleaf_ok:
  "nonleaf_in_memory child \<Longrightarrow> sorted_wrt (<) (map msg_msn fifo) \<Longrightarrow>
   \<forall>m \<in> set fifo. msg_msn m > max_msn_applied_to_node_in_memory child \<Longrightarrow>
   \<exists>child'. drain_to_nonleaf t x fifo nbytes child
              = Some ([], nbytes - sum_list (map (msg_nbytes x) fifo), child') \<and>
     nonleaf_in_memory child' \<and>
     max_msn_applied_to_node_in_memory child'
       = (if fifo = [] then max_msn_applied_to_node_in_memory child else msg_msn (last fifo))"
proof (induction fifo arbitrary: nbytes child)
  case Nil
  then show ?case by simp
next
  case (Cons m fifo)
  from Cons.prems obtain c1 where
    p: "brt_nonleaf_put_cmd t x child m = Some c1" "nonleaf_in_memory c1"
       "max_msn_applied_to_node_in_memory c1 = msg_msn m"
    using brt_nonleaf_put_cmd_ok [of child m t x] by auto
  from Cons.prems p have "\<forall>m' \<in> set fifo. msg_msn m' > max_msn_applied_to_node_in_memory c1"
    by auto
  from Cons.IH [OF p(2) _ this, of "nbytes - msg_nbytes x m"] Cons.prems(2)
  obtain c2 where
    d: "drain_to_nonleaf t x fifo (nbytes - msg_nbytes x m) c1
          = Some ([], nbytes - msg_nbytes x m - sum_list (map (msg_nbytes x) fifo), c2)"
       "nonleaf_in_memory c2"
       "max_msn_applied_to_node_in_memory c2
          = (if fifo = [] then max_msn_applied_to_node_in_memory c1 else msg_msn (last fifo))"
    by auto
  from nonleaf_node_in_memory [OF Cons.prems(1)] p d show ?case
    by (simp add: brtnode_put_cmd_def Let_def diff_diff_eq)
qed

lemma word_lt_succ: "(w :: 'a::len word) \<noteq> - 1 \<Longrightarrow> w < w + 1"
  by (metis inc_less_eq_triv_imp linorder_less_linear word_le_less_eq)

lemma append_to_child_buffer_msn:
  "toku_brt_append_to_child_buffer x node i cmd = Some node' \<Longrightarrow>
   max_msn_applied_to_node_in_memory node' = max_msn_applied_to_node_in_memory node"
  by (auto simp: toku_brt_append_to_child_buffer_def Let_def split: Option.bind_splits)

lemma cmd_all_loop_msn:
  "cmd_all_loop x cmd k i node = Some node' \<Longrightarrow>
   max_msn_applied_to_node_in_memory node' = max_msn_applied_to_node_in_memory node"
proof (induction k arbitrary: i node)
  case 0
  then show ?case by simp
next
  case (Suc k)
  then show ?case
    by (auto simp: brt_nonleaf_cmd_once_to_child_def split: Option.bind_splits
        dest!: append_to_child_buffer_msn)
qed

lemma brt_nonleaf_put_cmd_result:
  assumes "brt_nonleaf_put_cmd t x node cmd = Some node'"
  shows "max_msn_applied_to_node_in_memory node' = msg_msn cmd"
proof -
  let ?n = "node\<lparr>max_msn_applied_to_node_in_memory := msg_msn cmd\<rparr>"
  from assms have "brt_nonleaf_cmd_once t x ?n cmd = Some node' \<or>
      brt_nonleaf_cmd_all x ?n cmd = Some node' \<or> node' = ?n"
    by (cases "msg_type cmd")
      (auto simp: brt_nonleaf_put_cmd_def Let_def split: Option.bind_splits)
  then show ?thesis
    by (auto simp: brt_nonleaf_cmd_once_def brt_nonleaf_cmd_all_def
        brt_nonleaf_cmd_once_to_child_def split: Option.bind_splits
        dest!: append_to_child_buffer_msn cmd_all_loop_msn)
qed

text \<open>
  Below the largest msn a root put into a nonleaf root passes the invariant: the message is
  stamped with an msn strictly above the root's, and the root takes that msn.
\<close>

lemma root_put_below_largest_msn:
  assumes "nonleaf_in_memory root" and "max_msn_applied_to_node_in_memory root \<noteq> - 1"
  shows "msg_msn (stamp_msn root cmd) > max_msn_applied_to_node_in_memory root"
    and "\<exists>root'. push_something_at_root put t x root (stamp_msn root cmd) = Some root' \<and>
           max_msn_applied_to_node_in_memory root' = msg_msn (stamp_msn root cmd)"
proof -
  from assms(2)
  have "max_msn_applied_to_node_in_memory root < max_msn_applied_to_node_in_memory root + 1"
    by (simp add: word_lt_succ)
  then show gt: "msg_msn (stamp_msn root cmd) > max_msn_applied_to_node_in_memory root"
    by (simp add: stamp_msn_def)
  from assms(1) gt obtain root' where
    "brt_nonleaf_put_cmd t x root (stamp_msn root cmd) = Some root'"
    "max_msn_applied_to_node_in_memory root' = msg_msn (stamp_msn root cmd)"
    using brt_nonleaf_put_cmd_ok [of root "stamp_msn root cmd" t x] by blast
  with assms(1) nonleaf_node_in_memory [of root]
  show "\<exists>root'. push_something_at_root put t x root (stamp_msn root cmd) = Some root' \<and>
             max_msn_applied_to_node_in_memory root' = msg_msn (stamp_msn root cmd)"
    by (simp add: push_something_at_root_def brtnode_nonleaf_put_cmd_at_root_def assert_def)
qed


end
